theory Spec2Isabelle
  imports Main
begin

section \<open>Strings\<close>

text \<open>
  A Python \<open>str\<close> is a sequence of Unicode code points, so a string is modelled as the
  list of its code points. \<open>str.strip()\<close> removes the characters for which
  \<open>str.isspace\<close> holds from both ends; \<open>is_space\<close> lists exactly those code points.
\<close>

type_synonym ustr = "nat list"

definition ascii :: "string \<Rightarrow> ustr" where
  "ascii s = map of_char s"

definition is_space :: "nat \<Rightarrow> bool" where
  "is_space c = (c \<in> {9, 10, 11, 12, 13, 28, 29, 30, 31, 32, 133, 160, 5760}
       \<or> (8192 \<le> c \<and> c \<le> 8202)
       \<or> c \<in> {8232, 8233, 8239, 8287, 12288})"

definition strip :: "ustr \<Rightarrow> ustr" where
  "strip s = rev (dropWhile is_space (rev (dropWhile is_space s)))"

text \<open>\<open>sub in s\<close> on strings: \<open>sub\<close> occurs in \<open>s\<close> as a contiguous block.\<close>

fun contains :: "ustr \<Rightarrow> ustr \<Rightarrow> bool" where
  "contains sub [] = (sub = [])"
| "contains sub (x # xs) = (take (length sub) (x # xs) = sub \<or> contains sub xs)"

text \<open>\<open>sep.join(parts)\<close>.\<close>

fun join :: "ustr \<Rightarrow> ustr list \<Rightarrow> ustr" where
  "join sep [] = []"
| "join sep [x] = x"
| "join sep (x # y # ys) = x @ sep @ join sep (y # ys)"

section \<open>The fill stage: \<open>fill_answer_instruction_column\<close>\<close>

type_synonym grid = "ustr list list"

text \<open>The header marker of the instructions column (the four code points of the source's
  literal, U+7B54 U+9898 U+8BF4 U+660E).\<close>

definition instruction_marker :: ustr where
  "instruction_marker = [31572, 39064, 35828, 26126]"

text \<open>The test \<open>cell and str(cell).strip()\<close>: the cell is non-empty and is not
  whitespace only.\<close>

definition nonblank :: "ustr \<Rightarrow> bool" where
  "nonblank cell = (cell \<noteq> [] \<and> strip cell \<noteq> [])"

text \<open>The header scan (lines 77 to 81): the index of the first header that is non-empty and
  contains the marker; \<open>None\<close> stands for the source's \<open>-1\<close>.\<close>

fun find_instruction_col :: "nat \<Rightarrow> ustr list \<Rightarrow> nat option" where
  "find_instruction_col i [] = None"
| "find_instruction_col i (header # rest) =
     (if header \<noteq> [] \<and> contains instruction_marker header then Some i
      else find_instruction_col (Suc i) rest)"

text \<open>The two nested loops of lines 87 to 92, with \<open>max_rows_other_cols\<close> as the
  accumulator, and the fallback of lines 95 and 96.\<close>

definition scan_cell :: "nat \<Rightarrow> nat \<Rightarrow> nat \<times> ustr \<Rightarrow> nat \<Rightarrow> nat" where
  "scan_cell col r_idx = (\<lambda>(c_idx, cell) m.
     if c_idx \<noteq> col \<and> nonblank cell then (if r_idx + 1 > m then r_idx + 1 else m) else m)"

definition scan_row :: "nat \<Rightarrow> nat \<times> ustr list \<Rightarrow> nat \<Rightarrow> nat" where
  "scan_row col = (\<lambda>(r_idx, row) m. fold (scan_cell col r_idx) (enumerate 0 row) m)"

definition scan_rows :: "nat \<Rightarrow> grid \<Rightarrow> nat" where
  "scan_rows col csv_data = fold (scan_row col) (enumerate 0 csv_data) 0"

definition max_rows_other_cols :: "nat \<Rightarrow> grid \<Rightarrow> nat" where
  "max_rows_other_cols col csv_data =
     (let m = scan_rows col csv_data in if m = 0 then length csv_data else m)"

text \<open>Lines 108 and 109: append empty cells while the row is too short to hold the
  instructions column.\<close>

function pad_row :: "ustr list \<Rightarrow> nat \<Rightarrow> ustr list" where
  "pad_row current_row col =
     (if length current_row \<le> col then pad_row (current_row @ [[]]) col else current_row)"
  by pat_completeness auto
termination
  by (relation "measure (\<lambda>(current_row, col). Suc col - length current_row)") auto

declare pad_row.simps [simp del]

text \<open>One iteration of the loop of lines 103 to 116. The state is the grid, whose rows the
  source updates in place, and \<open>last_instruction\<close>.\<close>

definition fill_step :: "nat \<Rightarrow> nat \<Rightarrow> grid \<times> ustr \<Rightarrow> grid \<times> ustr" where
  "fill_step col row_index = (\<lambda>(csv_data, last_instruction).
     if row_index < length csv_data then
       (let current_row = pad_row (csv_data ! row_index) col;
            current_cell_value = current_row ! col
        in if nonblank current_cell_value
           then (csv_data[row_index := current_row], current_cell_value)
           else if last_instruction \<noteq> []
           then (csv_data[row_index := current_row[col := last_instruction]], last_instruction)
           else (csv_data[row_index := current_row], last_instruction))
     else (csv_data, last_instruction))"

definition fill_loop :: "nat \<Rightarrow> nat \<Rightarrow> grid \<Rightarrow> grid" where
  "fill_loop col m csv_data = fst (fold (fill_step col) [1..<m] (csv_data, []))"

definition fill_answer_instruction_column :: "grid \<Rightarrow> grid" where
  "fill_answer_instruction_column csv_data =
     (if csv_data = [] \<or> length csv_data < 2 then csv_data
      else let header_row = csv_data ! 0 in
        case find_instruction_col 0 header_row of
          None \<Rightarrow> csv_data
        | Some col \<Rightarrow>
            let m = max_rows_other_cols col csv_data;
                filled = fill_loop col m csv_data
            in map (take (length header_row)) (take m filled))"

section \<open>Properties of the fill stage\<close>

lemma pad_row_eq: "pad_row row col = row @ replicate (Suc col - length row) []"
proof (induction row col rule: pad_row.induct)
  case (1 current_row col)
  show ?case
  proof (cases "length current_row \<le> col")
    case True
    then have "Suc col - length current_row = Suc (col - length current_row)" by simp
    with True 1 show ?thesis
      by (subst pad_row.simps) (simp add: replicate_app_Cons_same)
  next
    case False
    then show ?thesis by (subst pad_row.simps) simp
  qed
qed

definition has_other :: "nat \<Rightarrow> ustr list \<Rightarrow> bool" where
  "has_other col row = list_ex (\<lambda>(j, cell). j \<noteq> col \<and> nonblank cell) (enumerate 0 row)"

lemma has_other_iff:
  "has_other col row \<longleftrightarrow> (\<exists>j<length row. j \<noteq> col \<and> nonblank (row ! j))"
proof
  assume "has_other col row"
  then obtain p where p: "p \<in> set (enumerate 0 row)" "fst p \<noteq> col" "nonblank (snd p)"
    by (auto simp: has_other_def list_ex_iff)
  then have "fst p < length row" "row ! fst p = snd p"
    by (simp_all add: in_set_enumerate_eq)
  with p show "\<exists>j<length row. j \<noteq> col \<and> nonblank (row ! j)" by auto
next
  assume "\<exists>j<length row. j \<noteq> col \<and> nonblank (row ! j)"
  then obtain j where j: "j < length row" "j \<noteq> col" "nonblank (row ! j)" by auto
  then have "(j, row ! j) \<in> set (enumerate 0 row)" by (simp add: in_set_enumerate_eq)
  with j show "has_other col row"
    unfolding has_other_def list_ex_iff by (intro bexI [of _ "(j, row ! j)"]) simp_all
qed

lemma fold_scan_cell:
  "fold (scan_cell col r) (enumerate n row) m =
     (if \<exists>j<length row. n + j \<noteq> col \<and> nonblank (row ! j) then max m (Suc r) else m)"
proof (induction row arbitrary: n m)
  case Nil
  then show ?case by simp
next
  case (Cons c cs)
  have ex: "(\<exists>j<length (c # cs). n + j \<noteq> col \<and> nonblank ((c # cs) ! j)) \<longleftrightarrow>
        (n \<noteq> col \<and> nonblank c) \<or> (\<exists>j<length cs. Suc n + j \<noteq> col \<and> nonblank (cs ! j))"
    by (auto simp: less_Suc_eq_0_disj)
  show ?case
    unfolding ex using Cons.IH [of "Suc n"]
    by (auto simp: scan_cell_def max_def)
qed

lemma scan_row_eq:
  "scan_row col (r, row) m = (if has_other col row then max m (Suc r) else m)"
  by (simp add: scan_row_def fold_scan_cell has_other_iff)

lemma scan_rows_snoc_aux:
  "fold (scan_row col) (enumerate 0 (data @ [row])) 0 =
     scan_row col (length data, row) (scan_rows col data)"
  by (simp add: scan_rows_def enumerate_append_eq)

lemma scan_rows_le: "scan_rows col data \<le> length data"
proof (induction data rule: rev_induct)
  case Nil
  then show ?case by (simp add: scan_rows_def)
next
  case (snoc row data)
  then show ?case
    unfolding scan_rows_def [of col "data @ [row]"] scan_rows_snoc_aux
    by (simp add: scan_row_eq)
qed

lemma scan_rows_Nil: "scan_rows col [] = 0"
  by (simp add: scan_rows_def)

lemma scan_rows_snoc:
  "scan_rows col (data @ [row]) = (if has_other col row then Suc (length data) else scan_rows col data)"
  unfolding scan_rows_def [of col "data @ [row]"] scan_rows_snoc_aux
  using scan_rows_le [of col data] by (simp add: scan_row_eq max_def)


definition frow :: "nat \<Rightarrow> ustr \<Rightarrow> ustr list \<Rightarrow> ustr list" where
  "frow col prev row =
     (let r = pad_row row col in
      if nonblank (r ! col) then r else if prev \<noteq> [] then r[col := prev] else r)"

definition fnext :: "nat \<Rightarrow> ustr \<Rightarrow> ustr list \<Rightarrow> ustr" where
  "fnext col prev row = (let v = pad_row row col ! col in if nonblank v then v else prev)"

fun ffill :: "nat \<Rightarrow> ustr \<Rightarrow> grid \<Rightarrow> grid" where
  "ffill col prev [] = []"
| "ffill col prev (row # rows) = frow col prev row # ffill col (fnext col prev row) rows"

fun flast :: "nat \<Rightarrow> ustr \<Rightarrow> grid \<Rightarrow> ustr" where
  "flast col prev [] = prev"
| "flast col prev (row # rows) = flast col (fnext col prev row) rows"

lemma length_ffill: "length (ffill col prev rows) = length rows"
  by (induction rows arbitrary: prev) simp_all

lemma fill_step_eq:
  "k < length d \<Longrightarrow> fill_step col k (d, prev) = (d[k := frow col prev (d ! k)], fnext col prev (d ! k))"
  by (simp add: fill_step_def frow_def fnext_def Let_def)

lemma fold_fill_step:
  "k + n \<le> length d \<Longrightarrow>
     fold (fill_step col) [k..<k + n] (d, prev) =
       (take k d @ ffill col prev (take n (drop k d)) @ drop (k + n) d,
        flast col prev (take n (drop k d)))"
proof (induction n arbitrary: k d prev)
  case 0
  then show ?case by simp
next
  case (Suc n)
  let ?d = "d[k := frow col prev (d ! k)]"
  from Suc.prems have k: "k < length d" and kn: "Suc k + n \<le> length ?d" by simp_all
  have upt: "[k..<k + Suc n] = k # [Suc k..<Suc k + n]"
    by (simp add: upt_conv_Cons)
  have tk: "take (Suc k) ?d = take k d @ [frow col prev (d ! k)]"
    using k by (simp add: take_Suc_conv_app_nth)
  have dr: "drop (Suc k) ?d = drop (Suc k) d" by simp
  have tsplit: "take (Suc n) (drop k d) = d ! k # take n (drop (Suc k) d)"
    using k by (simp add: Cons_nth_drop_Suc [symmetric])
  show ?case
    unfolding upt
    using Suc.IH [OF kn, of "fnext col prev (d ! k)"] k
    by (simp add: fill_step_eq tk dr tsplit del: upt_Suc take_Suc_Cons)
qed

lemma find_instruction_col_bounds:
  "find_instruction_col i hs = Some c \<Longrightarrow> i \<le> c \<and> c < i + length hs"
  by (induction hs arbitrary: i) (fastforce split: if_splits)+

lemma max_rows_le: "max_rows_other_cols col g \<le> length g"
  using scan_rows_le [of col g] by (simp add: max_rows_other_cols_def Let_def)

lemma max_rows_ge: "g \<noteq> [] \<Longrightarrow> 1 \<le> max_rows_other_cols col g"
  by (cases g) (simp_all add: max_rows_other_cols_def Let_def)

lemma fill_closed:
  assumes len: "2 \<le> length g" and col: "find_instruction_col 0 (g ! 0) = Some col"
  shows "fill_answer_instruction_column g =
           g ! 0 # map (take (length (g ! 0))) (ffill col [] (take (max_rows_other_cols col g - 1) (tl g)))"
proof -
  let ?m = "max_rows_other_cols col g"
  from len have ne: "g \<noteq> []" by auto
  have m1: "1 \<le> ?m" and m2: "?m \<le> length g" using max_rows_ge [OF ne, of col] max_rows_le [of col g] by auto
  have "fold (fill_step col) [1..<1 + (?m - 1)] (g, []) =
          (take 1 g @ ffill col [] (take (?m - 1) (drop 1 g)) @ drop (1 + (?m - 1)) g,
           flast col [] (take (?m - 1) (drop 1 g)))"
    using m1 m2 by (intro fold_fill_step) simp
  then have loop: "fill_loop col ?m g = take 1 g @ ffill col [] (take (?m - 1) (tl g)) @ drop ?m g"
    using m1 by (simp add: fill_loop_def drop_Suc)
  have t1: "take 1 g = [g ! 0]" using ne by (cases g) simp_all
  have la: "length (ffill col [] (take (?m - 1) (tl g))) = ?m - 1"
    using m2 by (simp add: length_ffill)
  have "take ?m (fill_loop col ?m g) = g ! 0 # ffill col [] (take (?m - 1) (tl g))"
  proof (cases ?m)
    case 0
    with m1 show ?thesis by simp
  next
    case (Suc m')
    with la show ?thesis unfolding loop t1 by simp
  qed
  then show ?thesis
    using len col ne by (simp add: fill_answer_instruction_column_def Let_def)
qed


lemma scan_rows_zero: "scan_rows col g = 0 \<longleftrightarrow> (\<forall>r<length g. \<not> has_other col (g ! r))"
proof (induction g rule: rev_induct)
  case Nil
  then show ?case by (simp add: scan_rows_Nil)
next
  case (snoc row g)
  show ?case
    by (auto simp: scan_rows_snoc snoc.IH less_Suc_eq nth_append)
qed

lemma scan_rows_Suc:
  "r < length g \<Longrightarrow> has_other col (g ! r) \<Longrightarrow>
   (\<forall>r'<length g. r < r' \<longrightarrow> \<not> has_other col (g ! r')) \<Longrightarrow> scan_rows col g = Suc r"
proof (induction g rule: rev_induct)
  case Nil
  then show ?case by simp
next
  case (snoc row g)
  show ?case
  proof (cases "r = length g")
    case True
    with snoc.prems show ?thesis by (simp add: scan_rows_snoc)
  next
    case False
    with snoc.prems have r: "r < length g" by simp
    from snoc.prems(3) r have nl: "\<not> has_other col row"
      by (auto dest: spec [of _ "length g"])
    have "\<forall>r'<length g. r < r' \<longrightarrow> \<not> has_other col (g ! r')"
    proof (intro allI impI)
      fix r' assume a: "r' < length g" "r < r'"
      with snoc.prems(3) have "\<not> has_other col ((g @ [row]) ! r')" by simp
      with a show "\<not> has_other col (g ! r')" by (simp add: nth_append)
    qed
    with snoc.IH r snoc.prems(2) have "scan_rows col g = Suc r" by (simp add: nth_append)
    with nl show ?thesis by (simp add: scan_rows_snoc)
  qed
qed

lemma scan_rows_has_other: "scan_rows col g = Suc s \<Longrightarrow> has_other col (g ! s)"
proof (induction g rule: rev_induct)
  case Nil
  then show ?case by (simp add: scan_rows_Nil)
next
  case (snoc row g)
  show ?case
  proof (cases "has_other col row")
    case True
    with snoc.prems show ?thesis by (auto simp: scan_rows_snoc)
  next
    case False
    with snoc.prems have s: "scan_rows col g = Suc s" by (simp add: scan_rows_snoc)
    with scan_rows_le [of col g] have "s < length g" by simp
    with snoc.IH [OF s] show ?thesis by (simp add: nth_append)
  qed
qed

lemma length_fill:
  assumes "g \<noteq> []" "find_instruction_col 0 (g ! 0) = Some col"
  shows "length (fill_answer_instruction_column g) = max_rows_other_cols col g"
proof (cases "2 \<le> length g")
  case True
  with assms max_rows_ge [OF assms(1), of col] max_rows_le [of col g] show ?thesis
    by (simp add: fill_closed length_ffill)
next
  case False
  with assms(1) have l: "length g = 1" by (cases g) (simp_all add: not_le)
  with max_rows_ge [OF assms(1), of col] max_rows_le [of col g] show ?thesis
    by (simp add: fill_answer_instruction_column_def)
qed

text \<open>C10: a grid with fewer than two rows (empty, or the header row alone) is returned
  as it is, whatever its header holds.\<close>

theorem fill_short_grid_unchanged:
  "length csv_data < 2 \<Longrightarrow> fill_answer_instruction_column csv_data = csv_data"
  by (simp add: fill_answer_instruction_column_def)

theorem fill_short_grid_unchanged_witness:
  "length [[instruction_marker, ascii ''a'']] < 2 \<and>
   fill_answer_instruction_column [[instruction_marker, ascii ''a'']] = [[instruction_marker, ascii ''a'']]"
  using fill_short_grid_unchanged [of "[[instruction_marker, ascii ''a'']]"] by simp

text \<open>C7: when an instructions column is found, the output has exactly
  \<open>max_rows_other_cols\<close> rows. That number is one more than the index of the last row
  holding a non-blank cell outside the instructions column, so no non-blank content of
  another column beyond row \<open>k\<close> means at most \<open>k + 1\<close> rows; and when no such cell exists
  at all it is the full length of the grid, not zero.\<close>

theorem fill_row_bound:
  assumes "g \<noteq> []" and "find_instruction_col 0 (g ! 0) = Some col"
  shows "length (fill_answer_instruction_column g) = max_rows_other_cols col g
     \<and> (\<forall>r<length g. has_other col (g ! r) \<and> (\<forall>r'<length g. r < r' \<longrightarrow> \<not> has_other col (g ! r'))
          \<longrightarrow> max_rows_other_cols col g = r + 1)
     \<and> (\<forall>k. (\<exists>r<length g. has_other col (g ! r)) \<and> (\<forall>r<length g. k < r \<longrightarrow> \<not> has_other col (g ! r))
          \<longrightarrow> length (fill_answer_instruction_column g) \<le> k + 1)
     \<and> ((\<forall>r<length g. \<not> has_other col (g ! r)) \<longrightarrow> max_rows_other_cols col g = length g)"
proof (intro conjI allI impI)
  show len: "length (fill_answer_instruction_column g) = max_rows_other_cols col g"
    by (rule length_fill [OF assms])
next
  fix r
  assume "r < length g" and
    "has_other col (g ! r) \<and> (\<forall>r'<length g. r < r' \<longrightarrow> \<not> has_other col (g ! r'))"
  then have "scan_rows col g = Suc r" by (intro scan_rows_Suc) auto
  then show "max_rows_other_cols col g = r + 1" by (simp add: max_rows_other_cols_def)
next
  fix k
  assume a: "(\<exists>r<length g. has_other col (g ! r)) \<and> (\<forall>r<length g. k < r \<longrightarrow> \<not> has_other col (g ! r))"
  then have nz: "scan_rows col g \<noteq> 0" by (simp add: scan_rows_zero)
  have "scan_rows col g \<le> Suc k"
  proof (rule ccontr)
    assume "\<not> scan_rows col g \<le> Suc k"
    then obtain s where s: "scan_rows col g = Suc s" "k < s" by (cases "scan_rows col g") auto
    have "s < length g" using scan_rows_le [of col g] s by simp
    moreover have "has_other col (g ! s)" using s(1) by (rule scan_rows_has_other)
    ultimately show False using a s by auto
  qed
  with nz show "length (fill_answer_instruction_column g) \<le> k + 1"
    by (simp add: length_fill [OF assms] max_rows_other_cols_def)
next
  assume "\<forall>r<length g. \<not> has_other col (g ! r)"
  then have "scan_rows col g = 0" by (simp add: scan_rows_zero)
  then show "max_rows_other_cols col g = length g" by (simp add: max_rows_other_cols_def)
qed

lemmas fill_eval = fill_answer_instruction_column_def fill_loop_def fill_step_def
  max_rows_other_cols_def scan_rows_def scan_row_def scan_cell_def pad_row_eq
  nonblank_def strip_def is_space_def instruction_marker_def ascii_def Let_def
  upt_conv_Cons

theorem fill_row_bound_witness:
  "[[instruction_marker, ascii ''h''], [ascii ''x'', ascii ''v''], [ascii ''y'', []], [ascii ''z'', []]] \<noteq> []
   \<and> find_instruction_col 0 ([[instruction_marker, ascii ''h''], [ascii ''x'', ascii ''v''], [ascii ''y'', []], [ascii ''z'', []]] ! 0) = Some 0
   \<and> has_other 0 [ascii ''x'', ascii ''v''] \<and> \<not> has_other 0 [ascii ''y'', []] \<and> \<not> has_other 0 [ascii ''z'', []]
   \<and> max_rows_other_cols 0 [[instruction_marker, ascii ''h''], [ascii ''x'', ascii ''v''], [ascii ''y'', []], [ascii ''z'', []]] = 2
   \<and> length (fill_answer_instruction_column
        [[instruction_marker, ascii ''h''], [ascii ''x'', ascii ''v''], [ascii ''y'', []], [ascii ''z'', []]]) = 2"
proof -
  let ?g = "[[instruction_marker, ascii ''h''], [ascii ''x'', ascii ''v''], [ascii ''y'', []], [ascii ''z'', []]]"
  have ne: "?g \<noteq> []" by simp
  have col: "find_instruction_col 0 (?g ! 0) = Some 0" by (simp add: instruction_marker_def)
  have h1: "has_other 0 [ascii ''x'', ascii ''v'']"
    by (simp add: has_other_def nonblank_def strip_def is_space_def ascii_def)
  have h2: "\<not> has_other 0 [ascii ''y'', []]" "\<not> has_other 0 [ascii ''z'', []]"
    by (simp_all add: has_other_def nonblank_def)
  have m: "max_rows_other_cols 0 ?g = 2" by (simp add: fill_eval)
  from fill_row_bound [OF ne col] have "length (fill_answer_instruction_column ?g) = max_rows_other_cols 0 ?g"
    by (rule conjunct1)
  with ne col h1 h2 m show ?thesis by simp
qed

lemma length_pad_row: "length (pad_row row col) = max (length row) (Suc col)"
  by (simp add: pad_row_eq max_def)

lemma length_frow: "length (frow col prev row) = max (length row) (Suc col)"
  by (simp add: frow_def Let_def length_pad_row)

lemma nth_ffill_length:
  "i < length rows \<Longrightarrow> length (ffill col prev rows ! i) = max (length (rows ! i)) (Suc col)"
proof (induction rows arbitrary: prev i)
  case Nil
  then show ?case by simp
next
  case (Cons row rows)
  then show ?case by (cases i) (simp_all add: length_frow)
qed

lemma fill_row_length_formula:
  assumes "g \<noteq> []" and "find_instruction_col 0 (g ! 0) = Some col"
    and "i < length (fill_answer_instruction_column g)"
  shows "length (fill_answer_instruction_column g ! i) = min (length (g ! 0)) (max (length (g ! i)) (Suc col))"
proof (cases "2 \<le> length g")
  case True
  let ?m = "max_rows_other_cols col g"
  let ?rows = "take (?m - 1) (tl g)"
  from assms(2) have c: "col < length (g ! 0)"
    using find_instruction_col_bounds [of 0 "g ! 0" col] by simp
  have fc: "fill_answer_instruction_column g = g ! 0 # map (take (length (g ! 0))) (ffill col [] ?rows)"
    using True assms(2) by (rule fill_closed)
  show ?thesis
  proof (cases i)
    case 0
    with c show ?thesis by (simp add: fc)
  next
    case (Suc j)
    with assms(3) have j: "j < length ?rows" by (simp add: fc length_ffill)
    then have j1: "j < ?m - 1" and j2: "j < length (tl g)" by simp_all
    have e: "?rows ! j = g ! i"
      unfolding Suc nth_take [OF j1] nth_tl [OF j2] ..
    have l: "length (ffill col [] ?rows ! j) = max (length (?rows ! j)) (Suc col)"
      using j by (rule nth_ffill_length)
    have r: "fill_answer_instruction_column g ! i = take (length (g ! 0)) (ffill col [] ?rows ! j)"
      unfolding fc Suc using j by (simp add: length_ffill)
    show ?thesis unfolding r length_take l e by (rule min.commute)
  qed
next
  case False
  with assms(1) have l1: "length g = 1" by (cases g) (simp_all add: not_le)
  then have same: "fill_answer_instruction_column g = g"
    by (simp add: fill_answer_instruction_column_def)
  from assms(3) have i0: "i = 0" unfolding same l1 by simp
  from assms(2) have "col < length (g ! 0)"
    using find_instruction_col_bounds [of 0 "g ! 0" col] by simp
  then show ?thesis unfolding same i0 by simp
qed

text \<open>C1, as the code has it: with an instructions column at index \<open>col\<close>, retained row
  \<open>i\<close> has \<open>min header_length (max (length of input row i) (col + 1))\<close> cells. So no row is
  longer than the header, and a row has exactly \<open>header_length\<close> cells precisely when its
  input row had at least that many or the instructions column is the last header column; any
  other row is padded only as far as the instructions column and stays shorter than the
  header.\<close>

theorem fill_row_lengths:
  assumes "g \<noteq> []" and "find_instruction_col 0 (g ! 0) = Some col"
    and "i < length (fill_answer_instruction_column g)"
  shows "length (fill_answer_instruction_column g ! i)
           = min (length (g ! 0)) (max (length (g ! i)) (Suc col))
     \<and> length (fill_answer_instruction_column g ! i) \<le> length (g ! 0)
     \<and> (length (fill_answer_instruction_column g ! i) = length (g ! 0)
          \<longleftrightarrow> length (g ! 0) \<le> length (g ! i) \<or> Suc col = length (g ! 0))"
proof -
  have f: "length (fill_answer_instruction_column g ! i)
      = min (length (g ! 0)) (max (length (g ! i)) (Suc col))"
    using assms by (rule fill_row_length_formula)
  from assms(2) have c: "col < length (g ! 0)"
    using find_instruction_col_bounds [of 0 "g ! 0" col] by simp
  from c show ?thesis unfolding f by auto
qed

theorem fill_row_lengths_witness:
  "[[ascii ''a'', ascii ''b'', instruction_marker], [ascii ''v'']] \<noteq> []
   \<and> find_instruction_col 0 ([[ascii ''a'', ascii ''b'', instruction_marker], [ascii ''v'']] ! 0) = Some 2
   \<and> 1 < length (fill_answer_instruction_column [[ascii ''a'', ascii ''b'', instruction_marker], [ascii ''v'']])
   \<and> length (fill_answer_instruction_column [[ascii ''a'', ascii ''b'', instruction_marker], [ascii ''v'']] ! 1) = 3"
proof -
  let ?g = "[[ascii ''a'', ascii ''b'', instruction_marker], [ascii ''v'']]"
  have ne: "?g \<noteq> []" by simp
  have col: "find_instruction_col 0 (?g ! 0) = Some 2"
    by (simp add: instruction_marker_def ascii_def)
  have i: "1 < length (fill_answer_instruction_column ?g)" by (simp add: fill_eval)
  from fill_row_lengths [OF ne col i] ne col i show ?thesis by simp
qed

text \<open>The claim as stated (every retained row has exactly \<open>header_length\<close> cells) fails on
  a grid with a short row: the header has three cells, the data row one, and the output
  row two.\<close>

theorem fill_row_lengths_counterexample:
  "find_instruction_col 0 [ascii ''a'', instruction_marker, ascii ''c''] = Some 1
   \<and> fill_answer_instruction_column [[ascii ''a'', instruction_marker, ascii ''c''], [ascii ''v'']]
       = [[ascii ''a'', instruction_marker, ascii ''c''], [ascii ''v'', []]]
   \<and> length [ascii ''v'', []] \<noteq> length [ascii ''a'', instruction_marker, ascii ''c'']"
  by (simp add: fill_eval)

lemma nonblank_Nil: "\<not> nonblank []"
  by (simp add: nonblank_def)

lemma pad_row_long: "col < length row \<Longrightarrow> pad_row row col = row"
  by (simp add: pad_row_eq)

text \<open>C6: in a grid of a header and five data rows whose instructions column holds
  \<open>x, "", "", y, ""\<close> (\<open>x\<close> and \<open>y\<close> non-blank, as \<open>"X"\<close> and \<open>"Y"\<close> are) and whose data
  rows each hold a non-blank cell in another column, the filled column is
  \<open>x, x, x, y, y\<close>, all six rows are kept, and the header row is returned as it was.\<close>

theorem fill_forward_example:
  assumes len: "length g = 6"
    and col: "find_instruction_col 0 (g ! 0) = Some col"
    and cells: "list_all (\<lambda>i. col < length (g ! i) \<and> has_other col (g ! i)) [1, 2, 3, 4, 5]"
    and vals: "map (\<lambda>i. g ! i ! col) [1, 2, 3, 4, 5] = [x, [], [], y, []]"
    and x: "nonblank x" and y: "nonblank y"
  shows "map (\<lambda>i. fill_answer_instruction_column g ! i ! col) [1, 2, 3, 4, 5] = [x, x, x, y, y]
     \<and> fill_answer_instruction_column g ! 0 = g ! 0
     \<and> length (fill_answer_instruction_column g) = 6"
proof -
  from len obtain h r1 r2 r3 r4 r5 where g: "g = [h, r1, r2, r3, r4, r5]"
    by (auto simp: eval_nat_numeral length_Suc_conv)
  from col have c: "col < length h" "find_instruction_col 0 h = Some col"
    using find_instruction_col_bounds [of 0 "g ! 0" col] by (simp_all add: g)
  from cells have ls: "col < length r1" "col < length r2" "col < length r3" "col < length r4"
      "col < length r5" and h5: "has_other col r5"
    by (simp_all add: g)
  from vals have vs: "r1 ! col = x" "r2 ! col = []" "r3 ! col = []" "r4 ! col = y" "r5 ! col = []"
    by (simp_all add: g)
  from x y have ne: "x \<noteq> []" "y \<noteq> []" by (auto simp: nonblank_def)
  have "scan_rows col g = Suc 5"
    by (rule scan_rows_Suc) (simp_all add: g h5)
  then have m: "max_rows_other_cols col g = 6" by (simp add: max_rows_other_cols_def)
  have "fill_answer_instruction_column g =
      g ! 0 # map (take (length (g ! 0))) (ffill col [] (take (max_rows_other_cols col g - 1) (tl g)))"
    by (rule fill_closed) (simp_all add: len col)
  also have "\<dots> = [h, take (length h) r1, take (length h) (r2[col := x]), take (length h) (r3[col := x]),
       take (length h) r4, take (length h) (r5[col := y])]"
    unfolding m by (simp add: g frow_def fnext_def pad_row_long ls vs x y ne nonblank_Nil)
  finally show ?thesis using c ls by (simp add: g vs)
qed

theorem fill_forward_example_witness:
  "length [[instruction_marker, ascii ''Q''], [ascii ''X'', ascii ''a''], [[], ascii ''b''],
           [[], ascii ''c''], [ascii ''Y'', ascii ''d''], [[], ascii ''e'']] = 6
   \<and> nonblank (ascii ''X'') \<and> nonblank (ascii ''Y'')
   \<and> map (\<lambda>i. fill_answer_instruction_column
          [[instruction_marker, ascii ''Q''], [ascii ''X'', ascii ''a''], [[], ascii ''b''],
           [[], ascii ''c''], [ascii ''Y'', ascii ''d''], [[], ascii ''e'']] ! i ! 0) [1, 2, 3, 4, 5]
       = [ascii ''X'', ascii ''X'', ascii ''X'', ascii ''Y'', ascii ''Y'']
   \<and> fill_answer_instruction_column
          [[instruction_marker, ascii ''Q''], [ascii ''X'', ascii ''a''], [[], ascii ''b''],
           [[], ascii ''c''], [ascii ''Y'', ascii ''d''], [[], ascii ''e'']] ! 0
       = [instruction_marker, ascii ''Q'']"
proof -
  let ?g = "[[instruction_marker, ascii ''Q''], [ascii ''X'', ascii ''a''], [[], ascii ''b''],
           [[], ascii ''c''], [ascii ''Y'', ascii ''d''], [[], ascii ''e'']]"
  have len: "length ?g = 6" by simp
  have col: "find_instruction_col 0 (?g ! 0) = Some 0" by (simp add: instruction_marker_def)
  have cells: "list_all (\<lambda>i. 0 < length (?g ! i) \<and> has_other 0 (?g ! i)) [1, 2, 3, 4, 5]"
    by (simp add: has_other_def nonblank_def strip_def is_space_def ascii_def)
  have vals: "map (\<lambda>i. ?g ! i ! 0) [1, 2, 3, 4, 5] = [ascii ''X'', [], [], ascii ''Y'', []]"
    by simp
  have x: "nonblank (ascii ''X'')" and y: "nonblank (ascii ''Y'')"
    by (simp_all add: nonblank_def strip_def is_space_def ascii_def)
  from fill_forward_example [OF len col cells vals x y] len x y show ?thesis by simp
qed

lemma has_other_pad: "has_other col (row @ replicate k []) = has_other col row"
proof -
  have nb: "nonblank ((row @ replicate k []) ! j) \<longleftrightarrow> j < length row \<and> nonblank (row ! j)"
    if "j < length row + k" for j
    using that by (simp add: nth_append nonblank_Nil)
  show ?thesis
  proof
    assume "has_other col (row @ replicate k [])"
    then obtain j where "j < length row + k" "j \<noteq> col" "nonblank ((row @ replicate k []) ! j)"
      by (auto simp: has_other_iff)
    with nb [of j] show "has_other col row" unfolding has_other_iff by blast
  next
    assume "has_other col row"
    then obtain j where j: "j < length row" "j \<noteq> col" "nonblank (row ! j)"
      by (auto simp: has_other_iff)
    then have jk: "j < length row + k" by simp
    with nb [of j] j have "nonblank ((row @ replicate k []) ! j)" by simp
    with jk j(2) show "has_other col (row @ replicate k [])"
      unfolding has_other_iff by (intro exI [of _ j]) simp
  qed
qed

lemma has_other_update: "has_other col (r[col := v]) = has_other col r"
  by (auto simp: has_other_iff)

lemma has_other_frow: "has_other col (frow col prev row) = has_other col row"
  by (simp add: frow_def Let_def pad_row_eq has_other_pad has_other_update)

lemma map_has_other_ffill: "map (has_other col) (ffill col prev rows) = map (has_other col) rows"
  by (induction rows arbitrary: prev) (simp_all add: has_other_frow)

lemma scan_rows_cong:
  "map (has_other col) d1 = map (has_other col) d2 \<Longrightarrow> scan_rows col d1 = scan_rows col d2"
proof (induction d1 arbitrary: d2 rule: rev_induct)
  case Nil
  then show ?case by simp
next
  case (snoc r1 d1)
  from snoc.prems obtain d2' r2 where d2: "d2 = d2' @ [r2]"
    by (cases d2 rule: rev_cases) auto
  with snoc.prems have m: "map (has_other col) d1 = map (has_other col) d2'"
    and h: "has_other col r1 = has_other col r2" by simp_all
  from m have "length d1 = length d2'" by (rule map_eq_imp_length_eq)
  with snoc.IH [OF m] h show ?case by (simp add: d2 scan_rows_snoc)
qed

lemma scan_rows_take: "scan_rows col (take (scan_rows col g) g) = scan_rows col g"
proof (induction g rule: rev_induct)
  case Nil
  then show ?case by (simp add: scan_rows_Nil)
next
  case (snoc row g)
  show ?case
  proof (cases "has_other col row")
    case True
    then show ?thesis by (simp add: scan_rows_snoc)
  next
    case False
    with snoc scan_rows_le [of col g] show ?thesis by (simp add: scan_rows_snoc)
  qed
qed

lemma pad_row_frow: "pad_row (frow col prev row) col = frow col prev row"
  by (rule pad_row_long) (simp add: length_frow)

lemma frow_nth:
  "frow col prev row ! col = (if nonblank (pad_row row col ! col) then pad_row row col ! col
      else if prev \<noteq> [] then prev else pad_row row col ! col)"
  by (simp add: frow_def Let_def length_pad_row)

lemma fnext_inv: "prev = [] \<or> nonblank prev \<Longrightarrow> fnext col prev row = [] \<or> nonblank (fnext col prev row)"
  by (auto simp: fnext_def Let_def)

lemma frow_idem:
  "prev = [] \<or> nonblank prev \<Longrightarrow> frow col prev (frow col prev row) = frow col prev row"
  unfolding frow_def [of col prev "frow col prev row"] pad_row_frow Let_def frow_nth
  by (auto simp: frow_def Let_def)

lemma fnext_frow:
  "prev = [] \<or> nonblank prev \<Longrightarrow> fnext col prev (frow col prev row) = fnext col prev row"
  unfolding fnext_def [of col prev "frow col prev row"] pad_row_frow Let_def frow_nth
  by (auto simp: fnext_def Let_def)

lemma ffill_idem:
  "prev = [] \<or> nonblank prev \<Longrightarrow> ffill col prev (ffill col prev rows) = ffill col prev rows"
proof (induction rows arbitrary: prev)
  case Nil
  then show ?case by simp
next
  case (Cons row rows)
  from Cons.prems have "fnext col prev row = [] \<or> nonblank (fnext col prev row)"
    by (rule fnext_inv)
  with Cons show ?case by (simp add: frow_idem fnext_frow)
qed

lemma ffill_rows_short:
  assumes "\<forall>row\<in>set rows. length row \<le> n" and "col < n"
  shows "\<forall>row\<in>set (ffill col prev rows). length row \<le> n"
  using assms(1)
proof (induction rows arbitrary: prev)
  case Nil
  then show ?case by simp
next
  case (Cons row rows)
  with assms(2) show ?case by (simp add: length_frow)
qed

lemma map_take_id: "\<forall>row\<in>set rows. length row \<le> n \<Longrightarrow> map (take n) rows = rows"
  by (induction rows) simp_all

text \<open>C2, as the code has it: on a grid none of whose rows is longer than the header row,
  the fill stage is idempotent: applied to its own output it returns that output.\<close>

theorem fill_idempotent:
  assumes short: "\<forall>row\<in>set g. length row \<le> length (g ! 0)"
  shows "fill_answer_instruction_column (fill_answer_instruction_column g) =
         fill_answer_instruction_column g"
proof (cases "length g < 2")
  case True
  then show ?thesis by (simp add: fill_answer_instruction_column_def)
next
  case False
  then have len: "2 \<le> length g" and ne: "g \<noteq> []" by auto
  show ?thesis
  proof (cases "find_instruction_col 0 (g ! 0)")
    case None
    then show ?thesis by (simp add: fill_answer_instruction_column_def)
  next
    case (Some col)
    let ?h = "g ! 0"
    let ?m = "max_rows_other_cols col g"
    let ?T = "take (?m - 1) (tl g)"
    let ?R = "ffill col [] ?T"
    let ?out = "?h # ?R"
    have c: "col < length ?h"
      using find_instruction_col_bounds [OF Some] by simp
    have m1: "1 \<le> ?m" and m2: "?m \<le> length g"
      using max_rows_ge [OF ne, of col] max_rows_le [of col g] by auto
    have "set ?T \<subseteq> set g"
      using ne by (cases g) (auto dest: in_set_takeD)
    with short have Tshort: "\<forall>row\<in>set ?T. length row \<le> length ?h" by blast
    then have Rshort: "\<forall>row\<in>set ?R. length row \<le> length ?h"
      using c by (rule ffill_rows_short)
    have fc: "fill_answer_instruction_column g = ?out"
      unfolding fill_closed [OF len Some] map_take_id [OF Rshort] ..
    have lenR: "length ?R = ?m - 1" using m2 by (simp add: length_ffill)
    show ?thesis
    proof (cases "?R = []")
      case True
      then show ?thesis unfolding fc by (simp add: fill_answer_instruction_column_def)
    next
      case False
      then have len': "2 \<le> length ?out" by (cases ?R) simp_all
      have col': "find_instruction_col 0 (?out ! 0) = Some col" using Some by simp
      have gsplit: "?h # ?T = take ?m g"
        using m1 ne by (cases g; cases ?m) simp_all
      have "scan_rows col ?out = scan_rows col (?h # ?T)"
        by (rule scan_rows_cong) (simp add: map_has_other_ffill)
      also have "\<dots> = scan_rows col g"
      proof (cases "scan_rows col g = 0")
        case True
        then have "?m = length g" by (simp add: max_rows_other_cols_def)
        then show ?thesis unfolding gsplit by simp
      next
        case False
        then have "?m = scan_rows col g" by (simp add: max_rows_other_cols_def)
        then show ?thesis unfolding gsplit by (simp add: scan_rows_take)
      qed
      finally have sc: "scan_rows col ?out = scan_rows col g" .
      have m': "max_rows_other_cols col ?out = ?m"
      proof (cases "scan_rows col g = 0")
        case True
        then have "?m = length g" by (simp add: max_rows_other_cols_def)
        with True sc lenR m1 show ?thesis by (simp add: max_rows_other_cols_def)
      next
        case False
        with sc show ?thesis by (simp add: max_rows_other_cols_def)
      qed
      have tk: "take (?m - 1) ?R = ?R" using lenR by simp
      have "fill_answer_instruction_column ?out =
          ?out ! 0 # map (take (length (?out ! 0)))
             (ffill col [] (take (max_rows_other_cols col ?out - 1) (tl ?out)))"
        using len' col' by (rule fill_closed)
      also have "\<dots> = ?h # map (take (length ?h)) (ffill col [] ?R)"
        unfolding m' using tk by simp
      also have "ffill col [] ?R = ?R" by (rule ffill_idem) simp
      also have "map (take (length ?h)) ?R = ?R" using Rshort by (rule map_take_id)
      finally show ?thesis unfolding fc .
    qed
  qed
qed

theorem fill_idempotent_witness:
  "list_all (\<lambda>row. length row \<le> 2)
      [[instruction_marker, ascii ''b''], [ascii ''x'', ascii ''v''], [[]], [[], []]]
   \<and> fill_answer_instruction_column
      [[instruction_marker, ascii ''b''], [ascii ''x'', ascii ''v''], [[]], [[], []]]
     = [[instruction_marker, ascii ''b''], [ascii ''x'', ascii ''v'']]
   \<and> fill_answer_instruction_column (fill_answer_instruction_column
      [[instruction_marker, ascii ''b''], [ascii ''x'', ascii ''v''], [[]], [[], []]])
     = fill_answer_instruction_column
      [[instruction_marker, ascii ''b''], [ascii ''x'', ascii ''v''], [[]], [[], []]]"
proof -
  let ?g = "[[instruction_marker, ascii ''b''], [ascii ''x'', ascii ''v''], [[]], [[], []]]"
  have short: "\<forall>row\<in>set ?g. length row \<le> length (?g ! 0)" by simp
  have ev: "fill_answer_instruction_column ?g = [[instruction_marker, ascii ''b''], [ascii ''x'', ascii ''v'']]"
    by (simp add: fill_eval)
  from fill_idempotent [OF short] ev show ?thesis by simp
qed

text \<open>The claim as stated (idempotent on every grid) fails when a row is longer than the
  header row. The cell \<open>"z"\<close> beyond the header's width counts for the row bound of the
  first run and is then cut off, so the second run finds no content below the header and
  drops the data row.\<close>

theorem fill_idempotent_counterexample:
  "fill_answer_instruction_column [[instruction_marker, ascii ''b''], [ascii ''x'', [], ascii ''z'']]
     = [[instruction_marker, ascii ''b''], [ascii ''x'', []]]
   \<and> fill_answer_instruction_column [[instruction_marker, ascii ''b''], [ascii ''x'', []]]
     = [[instruction_marker, ascii ''b'']]
   \<and> fill_answer_instruction_column (fill_answer_instruction_column
        [[instruction_marker, ascii ''b''], [ascii ''x'', [], ascii ''z'']])
     \<noteq> fill_answer_instruction_column [[instruction_marker, ascii ''b''], [ascii ''x'', [], ascii ''z'']]"
proof -
  have a: "fill_answer_instruction_column [[instruction_marker, ascii ''b''], [ascii ''x'', [], ascii ''z'']]
     = [[instruction_marker, ascii ''b''], [ascii ''x'', []]]"
    by (simp add: fill_eval)
  have b: "fill_answer_instruction_column [[instruction_marker, ascii ''b''], [ascii ''x'', []]]
     = [[instruction_marker, ascii ''b'']]"
    by (simp add: fill_eval)
  show ?thesis unfolding a b by simp
qed

section \<open>The merge stage: \<open>merge_columns_to_question_info\<close>\<close>

text \<open>
  The table pandas reads from the temporary file: the column labels in order and the
  records in order, each a list of values aligned with the columns. The code looks at a
  value only through \<open>pd.notna\<close> and \<open>str\<close>, so a value is either missing (\<open>NaN\<close>) or
  present and represented by its \<open>str()\<close> text.
\<close>

datatype cell = NaN | Val ustr

datatype dataframe = DataFrame (columns: "ustr list") (rows: "cell list list")

text \<open>The column labels and section labels of the source, as code points.\<close>

definition col_material :: ustr where
  "col_material = [26448, 26009, 20869, 23481]"

definition col_question_type :: ustr where
  "col_question_type = [42, 39064, 30446, 31867, 22411]"

definition col_stem :: ustr where
  "col_stem = [42, 39064, 24178]"

definition col_answer :: ustr where
  "col_answer = [42, 27491, 30830, 31572, 26696]"

definition col_instruction :: ustr where
  "col_instruction = [31572, 39064, 35828, 26126]"

definition col_question_info :: ustr where
  "col_question_info = [39064, 30446, 20449, 24687]"

definition option_prefix :: ustr where
  "option_prefix = [36873, 39033]"

definition required_columns :: "ustr list" where
  "required_columns = [col_material, col_question_type, col_stem, col_answer]"

definition option_columns :: "ustr list" where
  "option_columns = map (\<lambda>i. option_prefix @ [65 + i]) [0..<11]"

definition label_material :: ustr where
  "label_material = [26448, 26009, 20869, 23481]"

definition label_instruction :: ustr where
  "label_instruction = [31572, 39064, 35828, 26126]"

definition label_question_type :: ustr where
  "label_question_type = [39064, 30446, 31867, 22411]"

definition label_stem :: ustr where
  "label_stem = [39064, 24178]"

definition label_answer :: ustr where
  "label_answer = [27491, 30830, 31572, 26696]"

definition label_options :: ustr where
  "label_options = [36873, 39033]"

text \<open>\<open>str(value)\<close>, and the test \<open>pd.notna(value) and str(value).strip()\<close>.\<close>

fun str_of :: "cell \<Rightarrow> ustr" where
  "str_of NaN = ascii ''nan''"
| "str_of (Val s) = s"

definition present :: "cell \<Rightarrow> bool" where
  "present v = (v \<noteq> NaN \<and> strip (str_of v) \<noteq> [])"

text \<open>\<open>row[name]\<close>. Every label the code looks up is among the columns (the required ones
  by the check of lines 198 to 202, the others by their \<open>in df.columns\<close> guard); \<open>read_csv\<close>
  makes the column labels distinct, and pandas fills a record shorter than the header with
  \<open>NaN\<close>.\<close>

definition row_get :: "ustr list \<Rightarrow> cell list \<Rightarrow> ustr \<Rightarrow> cell" where
  "row_get cols row name = (case map_of (zip cols row) name of Some v \<Rightarrow> v | None \<Rightarrow> NaN)"

text \<open>A section: the label, a full-width colon (U+FF1A), a line break, the trimmed value.\<close>

definition section_text :: "ustr \<Rightarrow> cell \<Rightarrow> ustr" where
  "section_text label v = label @ [65306, 10] @ strip (str_of v)"

text \<open>The condition of line 237 and the line an option contributes (lines 238 and 239).\<close>

definition option_shown :: "ustr list \<Rightarrow> cell list \<Rightarrow> ustr \<Rightarrow> bool" where
  "option_shown cols row option_col = (option_col \<in> set cols \<and> present (row_get cols row option_col))"

definition option_line :: "ustr list \<Rightarrow> cell list \<Rightarrow> ustr \<Rightarrow> ustr" where
  "option_line cols row option_col =
     [last option_col] @ ascii ''. '' @ strip (str_of (row_get cols row option_col))"

text \<open>The body of the loop of lines 210 to 246 for one record.\<close>

definition question_info :: "ustr list \<Rightarrow> cell list \<Rightarrow> ustr" where
  "question_info cols row =
     (let get = row_get cols row;
          material = (if present (get col_material)
                      then [section_text label_material (get col_material)] else []);
          instruction = (if col_instruction \<in> set cols \<and> present (get col_instruction)
                      then [section_text label_instruction (get col_instruction)] else []);
          question_type = (if present (get col_question_type)
                      then [section_text label_question_type (get col_question_type)] else []);
          stem = (if present (get col_stem)
                      then [section_text label_stem (get col_stem)] else []);
          answer = (if present (get col_answer)
                      then [section_text label_answer (get col_answer)] else []);
          options = map (option_line cols row) (filter (option_shown cols row) option_columns);
          option_part = (if options \<noteq> [] then [label_options @ [65306, 10] @ join [10] options]
                      else []);
          info_parts = material @ instruction @ question_type @ stem @ answer @ option_part
      in if info_parts \<noteq> [] then join [10, 10] info_parts else [])"

text \<open>\<open>df[name] = values\<close>: pandas replaces the values of a column that exists, in place,
  and appends a new last column otherwise.\<close>

definition index_of :: "ustr \<Rightarrow> ustr list \<Rightarrow> nat" where
  "index_of name cols = length (takeWhile (\<lambda>c. c \<noteq> name) cols)"

definition set_column :: "dataframe \<Rightarrow> ustr \<Rightarrow> cell list \<Rightarrow> dataframe" where
  "set_column df name vals =
     (if name \<in> set (columns df)
      then DataFrame (columns df)
             (map (\<lambda>(row, v). row[index_of name (columns df) := v]) (zip (rows df) vals))
      else DataFrame (columns df @ [name]) (map (\<lambda>(row, v). row @ [v]) (zip (rows df) vals)))"

text \<open>Lines 197 to 249 on the table: \<open>None\<close> is the early \<open>return False\<close> of line 202.\<close>

definition merge_frame :: "dataframe \<Rightarrow> dataframe option" where
  "merge_frame df =
     (let missing_columns = filter (\<lambda>col. col \<notin> set (columns df)) required_columns
      in if missing_columns \<noteq> [] then None
         else Some (set_column df col_question_info
                      (map (\<lambda>row. Val (question_info (columns df) row)) (rows df))))"

lemma merge_frame_missing:
  "\<not> set required_columns \<subseteq> set (columns df) \<Longrightarrow> merge_frame df = None"
  by (auto simp: merge_frame_def Let_def filter_empty_conv)

lemma merge_frame_accepted:
  "set required_columns \<subseteq> set (columns df) \<Longrightarrow>
   merge_frame df = Some (set_column df col_question_info
                      (map (\<lambda>row. Val (question_info (columns df) row)) (rows df)))"
  by (auto simp: merge_frame_def Let_def filter_empty_conv)

lemma zip_map_self: "map (\<lambda>(row, v). f row v) (zip xs (map g xs)) = map (\<lambda>row. f row (g row)) xs"
  by (induction xs) simp_all

lemma set_column_fresh:
  "name \<notin> set (columns df) \<Longrightarrow>
   set_column df name (map g (rows df)) =
     DataFrame (columns df @ [name]) (map (\<lambda>row. row @ [g row]) (rows df))"
  by (simp add: set_column_def zip_map_self)



lemma option_columns_eq:
  "option_columns = map (\<lambda>c. option_prefix @ [c]) [65, 66, 67, 68, 69, 70, 71, 72, 73, 74, 75]"
  by (simp add: option_columns_def upt_conv_Cons)

lemma merge_frame_row:
  assumes "merge_frame df = Some df'" and "col_question_info \<notin> set (columns df)"
    and "i < length (rows df)"
  shows "rows df' ! i = rows df ! i @ [Val (question_info (columns df) (rows df ! i))]"
proof -
  from assms(1) have "set required_columns \<subseteq> set (columns df)"
    using merge_frame_missing [of df] by auto
  with assms(1,2) have "df' = DataFrame (columns df @ [col_question_info])
      (map (\<lambda>row. row @ [Val (question_info (columns df) row)]) (rows df))"
    by (simp add: merge_frame_accepted set_column_fresh)
  with assms(3) show ?thesis by simp
qed

lemma option_columns_split:
  "option_columns =
     [option_prefix @ [65], option_prefix @ [66], option_prefix @ [67]] @ drop 3 option_columns"
  by (simp add: option_columns_eq)

lemma option_columns_rest:
  "drop 3 option_columns = map (\<lambda>c. option_prefix @ [c]) [68, 69, 70, 71, 72, 73, 74, 75]"
  by (simp add: option_columns_eq)

lemma filter_options_ac:
  assumes "option_shown cols row (option_prefix @ [65])"
    and "\<not> option_shown cols row (option_prefix @ [66])"
    and "option_shown cols row (option_prefix @ [67])"
  shows "filter (option_shown cols row) option_columns =
      (option_prefix @ [65]) # (option_prefix @ [67])
        # filter (option_shown cols row) (drop 3 option_columns)"
proof -
  have "filter (option_shown cols row) option_columns =
      filter (option_shown cols row)
        ([option_prefix @ [65], option_prefix @ [66], option_prefix @ [67]] @ drop 3 option_columns)"
    using option_columns_split by (rule arg_cong [where f = "filter (option_shown cols row)"])
  also have "\<dots> = (option_prefix @ [65]) # (option_prefix @ [67])
        # filter (option_shown cols row) (drop 3 option_columns)"
    using assms by simp
  finally show ?thesis .
qed

lemma option_line_letter:
  "option_line cols row (option_prefix @ [c]) =
     [c] @ ascii ''. '' @ strip (str_of (row_get cols row (option_prefix @ [c])))"
  by (simp add: option_line_def)

lemma question_info_all_sections:
  assumes "present (row_get cols row col_material)"
    and "col_instruction \<in> set cols" and "present (row_get cols row col_instruction)"
    and "present (row_get cols row col_question_type)"
    and "present (row_get cols row col_stem)"
    and "present (row_get cols row col_answer)"
    and "option_shown cols row (option_prefix @ [65])"
    and "\<not> option_shown cols row (option_prefix @ [66])"
    and "option_shown cols row (option_prefix @ [67])"
  shows "question_info cols row = join [10, 10]
          [section_text label_material (row_get cols row col_material),
           section_text label_instruction (row_get cols row col_instruction),
           section_text label_question_type (row_get cols row col_question_type),
           section_text label_stem (row_get cols row col_stem),
           section_text label_answer (row_get cols row col_answer),
           label_options @ [65306, 10] @ join [10]
             ((ascii ''A. '' @ strip (str_of (row_get cols row (option_prefix @ [65]))))
              # (ascii ''C. '' @ strip (str_of (row_get cols row (option_prefix @ [67]))))
              # map (option_line cols row)
                  (filter (option_shown cols row) (drop 3 option_columns)))]"
proof -
  have a: "ascii ''A. '' = [65] @ ascii ''. ''" "ascii ''C. '' = [67] @ ascii ''. ''"
    by (simp_all add: ascii_def)
  show ?thesis
    unfolding question_info_def Let_def filter_options_ac [OF assms(7,8,9)]
    using assms(1-6) by (simp add: option_line_letter a)
qed

lemma question_info_no_section:
  assumes "\<not> present (row_get cols row col_material)"
    and "\<not> (col_instruction \<in> set cols \<and> present (row_get cols row col_instruction))"
    and "\<not> present (row_get cols row col_question_type)"
    and "\<not> present (row_get cols row col_stem)"
    and "\<not> present (row_get cols row col_answer)"
    and "list_all (\<lambda>c. \<not> option_shown cols row (option_prefix @ [c]))
           [65, 66, 67, 68, 69, 70, 71, 72, 73, 74, 75]"
  shows "question_info cols row = []"
proof -
  from assms(6) have opts: "filter (option_shown cols row) option_columns = []"
    unfolding option_columns_eq by simp
  from assms(1-5) show ?thesis
    unfolding question_info_def Let_def opts by auto
qed

text \<open>C8: a record in which material content, instructions, question type, stem and correct
  answer are present and non-blank, options A and C are populated and option B is blank (or
  has no column). Its question-info block is the six sections in the fixed order, joined by
  \<open>"\n\n"\<close>, each section being its label, a full-width colon, a line break and the trimmed
  value; the options section starts with the lines \<open>"A. <value>"\<close> and \<open>"C. <value>"\<close> with
  nothing for B between them, followed only by the lines of whichever of the options D to K
  are populated; when none of those is, it consists of exactly the two lines. A record with no
  qualifying section gets the empty string, and the merge appends that empty string as the
  value of the new field.\<close>

theorem question_info_sections:
  "(present (row_get cols row col_material)
      \<and> col_instruction \<in> set cols \<and> present (row_get cols row col_instruction)
      \<and> present (row_get cols row col_question_type)
      \<and> present (row_get cols row col_stem)
      \<and> present (row_get cols row col_answer)
      \<and> option_shown cols row (option_prefix @ [65])
      \<and> \<not> option_shown cols row (option_prefix @ [66])
      \<and> option_shown cols row (option_prefix @ [67])
    \<longrightarrow> question_info cols row = join [10, 10]
          [section_text label_material (row_get cols row col_material),
           section_text label_instruction (row_get cols row col_instruction),
           section_text label_question_type (row_get cols row col_question_type),
           section_text label_stem (row_get cols row col_stem),
           section_text label_answer (row_get cols row col_answer),
           label_options @ [65306, 10] @ join [10]
             ((ascii ''A. '' @ strip (str_of (row_get cols row (option_prefix @ [65]))))
              # (ascii ''C. '' @ strip (str_of (row_get cols row (option_prefix @ [67]))))
              # map (option_line cols row)
                  (filter (option_shown cols row) (drop 3 option_columns)))])
   \<and> (present (row_get cols row col_material)
      \<and> col_instruction \<in> set cols \<and> present (row_get cols row col_instruction)
      \<and> present (row_get cols row col_question_type)
      \<and> present (row_get cols row col_stem)
      \<and> present (row_get cols row col_answer)
      \<and> option_shown cols row (option_prefix @ [65])
      \<and> \<not> option_shown cols row (option_prefix @ [66])
      \<and> option_shown cols row (option_prefix @ [67])
      \<and> list_all (\<lambda>c. \<not> option_shown cols row (option_prefix @ [c])) [68, 69, 70, 71, 72, 73, 74, 75]
    \<longrightarrow> question_info cols row =
          section_text label_material (row_get cols row col_material) @ [10, 10]
        @ section_text label_instruction (row_get cols row col_instruction) @ [10, 10]
        @ section_text label_question_type (row_get cols row col_question_type) @ [10, 10]
        @ section_text label_stem (row_get cols row col_stem) @ [10, 10]
        @ section_text label_answer (row_get cols row col_answer) @ [10, 10]
        @ label_options @ [65306, 10]
        @ ascii ''A. '' @ strip (str_of (row_get cols row (option_prefix @ [65]))) @ [10]
        @ ascii ''C. '' @ strip (str_of (row_get cols row (option_prefix @ [67]))))
   \<and> (\<not> present (row_get cols row col_material)
      \<and> \<not> (col_instruction \<in> set cols \<and> present (row_get cols row col_instruction))
      \<and> \<not> present (row_get cols row col_question_type)
      \<and> \<not> present (row_get cols row col_stem)
      \<and> \<not> present (row_get cols row col_answer)
      \<and> list_all (\<lambda>c. \<not> option_shown cols row (option_prefix @ [c]))
           [65, 66, 67, 68, 69, 70, 71, 72, 73, 74, 75]
    \<longrightarrow> question_info cols row = [])
   \<and> (merge_frame df = Some df' \<and> col_question_info \<notin> set (columns df)
      \<and> i < length (rows df) \<and> question_info (columns df) (rows df ! i) = []
    \<longrightarrow> rows df' ! i = rows df ! i @ [Val []])"
proof (intro conjI impI)
  assume "present (row_get cols row col_material)
      \<and> col_instruction \<in> set cols \<and> present (row_get cols row col_instruction)
      \<and> present (row_get cols row col_question_type)
      \<and> present (row_get cols row col_stem)
      \<and> present (row_get cols row col_answer)
      \<and> option_shown cols row (option_prefix @ [65])
      \<and> \<not> option_shown cols row (option_prefix @ [66])
      \<and> option_shown cols row (option_prefix @ [67])"
  then show "question_info cols row = join [10, 10]
          [section_text label_material (row_get cols row col_material),
           section_text label_instruction (row_get cols row col_instruction),
           section_text label_question_type (row_get cols row col_question_type),
           section_text label_stem (row_get cols row col_stem),
           section_text label_answer (row_get cols row col_answer),
           label_options @ [65306, 10] @ join [10]
             ((ascii ''A. '' @ strip (str_of (row_get cols row (option_prefix @ [65]))))
              # (ascii ''C. '' @ strip (str_of (row_get cols row (option_prefix @ [67]))))
              # map (option_line cols row)
                  (filter (option_shown cols row) (drop 3 option_columns)))]"
    by (intro question_info_all_sections) blast+
next
  assume a: "present (row_get cols row col_material)
      \<and> col_instruction \<in> set cols \<and> present (row_get cols row col_instruction)
      \<and> present (row_get cols row col_question_type)
      \<and> present (row_get cols row col_stem)
      \<and> present (row_get cols row col_answer)
      \<and> option_shown cols row (option_prefix @ [65])
      \<and> \<not> option_shown cols row (option_prefix @ [66])
      \<and> option_shown cols row (option_prefix @ [67])
      \<and> list_all (\<lambda>c. \<not> option_shown cols row (option_prefix @ [c])) [68, 69, 70, 71, 72, 73, 74, 75]"
  then have rest: "filter (option_shown cols row) (drop 3 option_columns) = []"
    unfolding option_columns_rest by simp
  from a have "question_info cols row = join [10, 10]
          [section_text label_material (row_get cols row col_material),
           section_text label_instruction (row_get cols row col_instruction),
           section_text label_question_type (row_get cols row col_question_type),
           section_text label_stem (row_get cols row col_stem),
           section_text label_answer (row_get cols row col_answer),
           label_options @ [65306, 10] @ join [10]
             ((ascii ''A. '' @ strip (str_of (row_get cols row (option_prefix @ [65]))))
              # (ascii ''C. '' @ strip (str_of (row_get cols row (option_prefix @ [67]))))
              # map (option_line cols row)
                  (filter (option_shown cols row) (drop 3 option_columns)))]"
    by (intro question_info_all_sections) blast+
  then show "question_info cols row =
          section_text label_material (row_get cols row col_material) @ [10, 10]
        @ section_text label_instruction (row_get cols row col_instruction) @ [10, 10]
        @ section_text label_question_type (row_get cols row col_question_type) @ [10, 10]
        @ section_text label_stem (row_get cols row col_stem) @ [10, 10]
        @ section_text label_answer (row_get cols row col_answer) @ [10, 10]
        @ label_options @ [65306, 10]
        @ ascii ''A. '' @ strip (str_of (row_get cols row (option_prefix @ [65]))) @ [10]
        @ ascii ''C. '' @ strip (str_of (row_get cols row (option_prefix @ [67])))"
    unfolding rest by simp
next
  assume "\<not> present (row_get cols row col_material)
      \<and> \<not> (col_instruction \<in> set cols \<and> present (row_get cols row col_instruction))
      \<and> \<not> present (row_get cols row col_question_type)
      \<and> \<not> present (row_get cols row col_stem)
      \<and> \<not> present (row_get cols row col_answer)
      \<and> list_all (\<lambda>c. \<not> option_shown cols row (option_prefix @ [c]))
           [65, 66, 67, 68, 69, 70, 71, 72, 73, 74, 75]"
  then show "question_info cols row = []"
    by (intro question_info_no_section) blast+
next
  assume c: "merge_frame df = Some df' \<and> col_question_info \<notin> set (columns df)
      \<and> i < length (rows df) \<and> question_info (columns df) (rows df ! i) = []"
  then have "rows df' ! i = rows df ! i @ [Val (question_info (columns df) (rows df ! i))]"
    by (intro merge_frame_row) simp_all
  with c show "rows df' ! i = rows df ! i @ [Val []]" by simp
qed

lemmas merge_eval = question_info_def Let_def row_get_def present_def section_text_def
  option_line_def option_shown_def option_columns_eq strip_def is_space_def ascii_def
  col_material_def col_question_type_def col_stem_def col_answer_def col_instruction_def
  col_question_info_def option_prefix_def label_material_def label_instruction_def
  label_question_type_def label_stem_def label_answer_def label_options_def




theorem question_info_sections_witness:
  "question_info
      [col_material, col_instruction, col_question_type, col_stem, col_answer,
       option_prefix @ [65], option_prefix @ [66], option_prefix @ [67]]
      [Val (ascii ''M''), Val (ascii ''I''), Val (ascii ''T''), Val (ascii ''S''), Val (ascii ''B''),
       Val (ascii '' a ''), Val (ascii ''  ''), Val (ascii ''c'')]
     = label_material @ [65306, 10] @ ascii ''M'' @ [10, 10]
     @ label_instruction @ [65306, 10] @ ascii ''I'' @ [10, 10]
     @ label_question_type @ [65306, 10] @ ascii ''T'' @ [10, 10]
     @ label_stem @ [65306, 10] @ ascii ''S'' @ [10, 10]
     @ label_answer @ [65306, 10] @ ascii ''B'' @ [10, 10]
     @ label_options @ [65306, 10] @ ascii ''A. a'' @ [10] @ ascii ''C. c''
   \<and> question_info [col_material, col_question_type, col_stem, col_answer]
        [NaN, Val (ascii '' ''), NaN, NaN] = []
   \<and> merge_frame (DataFrame [col_material, col_question_type, col_stem, col_answer]
        [[NaN, Val (ascii '' ''), NaN, NaN]])
      = Some (DataFrame [col_material, col_question_type, col_stem, col_answer, col_question_info]
        [[NaN, Val (ascii '' ''), NaN, NaN, Val []]])"
proof -
  let ?cols = "[col_material, col_instruction, col_question_type, col_stem, col_answer,
       option_prefix @ [65], option_prefix @ [66], option_prefix @ [67]]"
  let ?row = "[Val (ascii ''M''), Val (ascii ''I''), Val (ascii ''T''), Val (ascii ''S''), Val (ascii ''B''),
       Val (ascii '' a ''), Val (ascii ''  ''), Val (ascii ''c'')]"
  let ?colz = "[col_material, col_question_type, col_stem, col_answer]"
  let ?rowz = "[NaN, Val (ascii '' ''), NaN, NaN]"
  let ?df = "DataFrame ?colz [?rowz]"
  let ?df' = "DataFrame (?colz @ [col_question_info]) [?rowz @ [Val []]]"
  have h1: "present (row_get ?cols ?row col_material)
      \<and> col_instruction \<in> set ?cols \<and> present (row_get ?cols ?row col_instruction)
      \<and> present (row_get ?cols ?row col_question_type)
      \<and> present (row_get ?cols ?row col_stem)
      \<and> present (row_get ?cols ?row col_answer)
      \<and> option_shown ?cols ?row (option_prefix @ [65])
      \<and> \<not> option_shown ?cols ?row (option_prefix @ [66])
      \<and> option_shown ?cols ?row (option_prefix @ [67])
      \<and> list_all (\<lambda>c. \<not> option_shown ?cols ?row (option_prefix @ [c])) [68, 69, 70, 71, 72, 73, 74, 75]"
    by (intro conjI) (simp_all add: merge_eval)
  have h0: "\<not> present (row_get ?colz ?rowz col_material)
      \<and> \<not> (col_instruction \<in> set ?colz \<and> present (row_get ?colz ?rowz col_instruction))
      \<and> \<not> present (row_get ?colz ?rowz col_question_type)
      \<and> \<not> present (row_get ?colz ?rowz col_stem)
      \<and> \<not> present (row_get ?colz ?rowz col_answer)
      \<and> list_all (\<lambda>c. \<not> option_shown ?colz ?rowz (option_prefix @ [c]))
           [65, 66, 67, 68, 69, 70, 71, 72, 73, 74, 75]"
    by (intro conjI) (simp_all add: merge_eval)
  note r1 = mp [OF conjunct1 [OF conjunct2 [OF question_info_sections]] h1]
  note r0 = mp [OF conjunct1 [OF conjunct2 [OF conjunct2 [OF question_info_sections]]] h0]
  have req: "set required_columns \<subseteq> set (columns ?df)"
    by (simp add: required_columns_def)
  have fresh: "col_question_info \<notin> set (columns ?df)"
    by (simp add: col_material_def col_question_type_def col_stem_def col_answer_def
        col_question_info_def)
  have mf: "merge_frame ?df = Some ?df'"
    unfolding merge_frame_accepted [OF req] set_column_fresh [OF fresh] by (simp add: r0)
  have h2: "merge_frame ?df = Some ?df' \<and> col_question_info \<notin> set (columns ?df)
      \<and> 0 < length (rows ?df) \<and> question_info (columns ?df) (rows ?df ! 0) = []"
    using mf fresh r0 by simp
  note r2 = mp [OF conjunct2 [OF conjunct2 [OF conjunct2 [OF question_info_sections]]] h2]
  have e1: "row_get ?cols ?row col_material = Val (ascii ''M'')"
    "row_get ?cols ?row col_instruction = Val (ascii ''I'')"
    "row_get ?cols ?row col_question_type = Val (ascii ''T'')"
    "row_get ?cols ?row col_stem = Val (ascii ''S'')"
    "row_get ?cols ?row col_answer = Val (ascii ''B'')"
    "row_get ?cols ?row (option_prefix @ [65]) = Val (ascii '' a '')"
    "row_get ?cols ?row (option_prefix @ [67]) = Val (ascii ''c'')"
    by (simp_all add: row_get_def col_material_def col_question_type_def col_stem_def
        col_answer_def col_instruction_def option_prefix_def)
  have e2: "strip (ascii '' a '') = ascii ''a''" "strip (ascii ''M'') = ascii ''M''"
    "strip (ascii ''I'') = ascii ''I''" "strip (ascii ''T'') = ascii ''T''"
    "strip (ascii ''S'') = ascii ''S''" "strip (ascii ''B'') = ascii ''B''"
    "strip (ascii ''c'') = ascii ''c''"
    by (simp_all add: strip_def is_space_def ascii_def)
  have e3: "ascii ''A. '' @ ascii ''a'' = ascii ''A. a''" "ascii ''C. '' @ ascii ''c'' = ascii ''C. c''"
    by (simp_all add: ascii_def)
  from r1 have "question_info ?cols ?row
     = label_material @ [65306, 10] @ ascii ''M'' @ [10, 10]
     @ label_instruction @ [65306, 10] @ ascii ''I'' @ [10, 10]
     @ label_question_type @ [65306, 10] @ ascii ''T'' @ [10, 10]
     @ label_stem @ [65306, 10] @ ascii ''S'' @ [10, 10]
     @ label_answer @ [65306, 10] @ ascii ''B'' @ [10, 10]
     @ label_options @ [65306, 10] @ ascii ''A. a'' @ [10] @ ascii ''C. c''"
    unfolding e1 section_text_def str_of.simps e2 by (simp add: e3 [symmetric])
  with r0 r2 mf show ?thesis by simp
qed



section \<open>The flattening stage: \<open>get_merged_cell_value\<close> and the grid of \<open>convert_xlsx_to_csv\<close>\<close>

text \<open>
  The sheet as the code reads it through openpyxl: the stored value of each cell (1-based
  row and column; \<open>None\<close> for an empty cell, otherwise the value, represented by its
  \<open>str()\<close> text), the merged ranges in the order in which
  \<open>worksheet.merged_cells.ranges\<close> yields them, and the sheet's dimensions. A merged range
  is its four bounds; \<open>range_max_row\<close> and \<open>range_max_col\<close> are openpyxl's \<open>max_row\<close> and
  \<open>max_col\<close> of the range.
\<close>

datatype merged_range =
  MergedRange (min_row: nat) (min_col: nat) (range_max_row: nat) (range_max_col: nat)

datatype worksheet =
  Worksheet (stored_value: "nat \<Rightarrow> nat \<Rightarrow> ustr option") (merged_ranges: "merged_range list")
    (max_row: nat) (max_column: nat)

text \<open>\<open>cell.coordinate in merged_range\<close>.\<close>

definition in_range :: "nat \<Rightarrow> nat \<Rightarrow> merged_range \<Rightarrow> bool" where
  "in_range row col r =
     (min_row r \<le> row \<and> row \<le> range_max_row r \<and> min_col r \<le> col \<and> col \<le> range_max_col r)"

text \<open>The loop of lines 54 to 60 over the ranges still to be tried: the first range that
  contains the address decides.\<close>

fun merged_lookup :: "worksheet \<Rightarrow> nat \<Rightarrow> nat \<Rightarrow> merged_range list \<Rightarrow> ustr option" where
  "merged_lookup ws row col [] = stored_value ws row col"
| "merged_lookup ws row col (r # rs) =
     (if in_range row col r then stored_value ws (min_row r) (min_col r)
      else merged_lookup ws row col rs)"

definition get_merged_cell_value :: "worksheet \<Rightarrow> nat \<Rightarrow> nat \<Rightarrow> ustr option" where
  "get_merged_cell_value ws row col = merged_lookup ws row col (merged_ranges ws)"

text \<open>Lines 149 to 163 of \<open>convert_xlsx_to_csv\<close>: the grid before the fill stage. An empty
  cell becomes the empty string (lines 156 and 157).\<close>

definition cell_text :: "ustr option \<Rightarrow> ustr" where
  "cell_text cell_value = (case cell_value of None \<Rightarrow> [] | Some v \<Rightarrow> v)"

definition flatten_row :: "worksheet \<Rightarrow> nat \<Rightarrow> ustr list" where
  "flatten_row ws row =
     map (\<lambda>col. cell_text (get_merged_cell_value ws row col)) [1..<max_column ws + 1]"

definition flatten :: "worksheet \<Rightarrow> grid" where
  "flatten ws = map (flatten_row ws) [1..<max_row ws + 1]"

subsection \<open>Properties of the resolver\<close>

lemma merged_lookup_none:
  "\<forall>r\<in>set rs. \<not> in_range row col r \<Longrightarrow> merged_lookup ws row col rs = stored_value ws row col"
  by (induction rs) simp_all

lemma merged_lookup_first:
  "merged_lookup ws row col rs =
     (case find (in_range row col) rs of
        None \<Rightarrow> stored_value ws row col
      | Some r \<Rightarrow> stored_value ws (min_row r) (min_col r))"
  by (induction rs) simp_all

lemma merged_lookup_top_left:
  assumes "r \<in> set rs" and "in_range row col r"
    and same: "\<forall>r'\<in>set rs. in_range row col r' \<longrightarrow> min_row r' = min_row r \<and> min_col r' = min_col r"
  shows "merged_lookup ws row col rs = stored_value ws (min_row r) (min_col r)"
proof (cases "find (in_range row col) rs")
  case None
  with assms(1,2) show ?thesis by (simp add: find_None_iff)
next
  case (Some r')
  then have "r' \<in> set rs" "in_range row col r'"
    by (auto simp: find_Some_iff)
  with same have "min_row r' = min_row r" "min_col r' = min_col r" by blast+
  then show ?thesis unfolding merged_lookup_first Some by simp
qed

lemma flatten_nth:
  assumes "1 \<le> row" "row \<le> max_row ws" "1 \<le> col" "col \<le> max_column ws"
  shows "flatten ws ! (row - 1) ! (col - 1) = cell_text (get_merged_cell_value ws row col)"
proof -
  from assms have "[1..<max_row ws + 1] ! (row - 1) = row" "row - 1 < length [1..<max_row ws + 1]"
    "[1..<max_column ws + 1] ! (col - 1) = col" "col - 1 < length [1..<max_column ws + 1]"
    by (simp_all add: nth_upt del: upt_Suc)
  then show ?thesis
    unfolding flatten_def flatten_row_def by (simp del: upt_Suc)
qed

lemma length_flatten: "length (flatten ws) = max_row ws"
  by (simp add: flatten_def del: upt_Suc)

lemma length_flatten_row: "row \<in> set (flatten ws) \<Longrightarrow> length row = max_column ws"
  by (auto simp: flatten_def flatten_row_def simp del: upt_Suc)

text \<open>C5, as the code has it: the resolver returns the value stored at the top-left address
  of the first merged range, in iteration order, that contains the address. So for an address
  inside a merged range \<open>r\<close>, when every merged range containing the address has the top-left
  address of \<open>r\<close> (as when merged ranges do not overlap), the resolver returns the value stored
  at the top-left address of \<open>r\<close>, and the cell of the flattened grid at that address holds
  that value (the empty string when nothing is stored there); an address inside no merged
  range resolves to its own stored value.\<close>

theorem merged_cell_resolution:
  "(r \<in> set (merged_ranges ws) \<and> in_range row col r
      \<and> (\<forall>r'\<in>set (merged_ranges ws). in_range row col r' \<longrightarrow>
            min_row r' = min_row r \<and> min_col r' = min_col r)
      \<longrightarrow> get_merged_cell_value ws row col = stored_value ws (min_row r) (min_col r))
   \<and> (r \<in> set (merged_ranges ws) \<and> in_range row col r
      \<and> (\<forall>r'\<in>set (merged_ranges ws). in_range row col r' \<longrightarrow>
            min_row r' = min_row r \<and> min_col r' = min_col r)
      \<and> 1 \<le> row \<and> row \<le> max_row ws \<and> 1 \<le> col \<and> col \<le> max_column ws
      \<longrightarrow> flatten ws ! (row - 1) ! (col - 1) = cell_text (stored_value ws (min_row r) (min_col r)))
   \<and> ((\<forall>r'\<in>set (merged_ranges ws). \<not> in_range row col r')
      \<longrightarrow> get_merged_cell_value ws row col = stored_value ws row col)
   \<and> (find (in_range row col) (merged_ranges ws) = Some r
      \<longrightarrow> get_merged_cell_value ws row col = stored_value ws (min_row r) (min_col r))"
proof (intro conjI impI)
  assume "r \<in> set (merged_ranges ws) \<and> in_range row col r
      \<and> (\<forall>r'\<in>set (merged_ranges ws). in_range row col r' \<longrightarrow>
            min_row r' = min_row r \<and> min_col r' = min_col r)"
  then show "get_merged_cell_value ws row col = stored_value ws (min_row r) (min_col r)"
    unfolding get_merged_cell_value_def by (intro merged_lookup_top_left) blast+
next
  assume a: "r \<in> set (merged_ranges ws) \<and> in_range row col r
      \<and> (\<forall>r'\<in>set (merged_ranges ws). in_range row col r' \<longrightarrow>
            min_row r' = min_row r \<and> min_col r' = min_col r)
      \<and> 1 \<le> row \<and> row \<le> max_row ws \<and> 1 \<le> col \<and> col \<le> max_column ws"
  then have "get_merged_cell_value ws row col = stored_value ws (min_row r) (min_col r)"
    unfolding get_merged_cell_value_def by (intro merged_lookup_top_left) blast+
  moreover from a have "flatten ws ! (row - 1) ! (col - 1) = cell_text (get_merged_cell_value ws row col)"
    by (intro flatten_nth) blast+
  ultimately show "flatten ws ! (row - 1) ! (col - 1) = cell_text (stored_value ws (min_row r) (min_col r))"
    by simp
next
  assume "\<forall>r'\<in>set (merged_ranges ws). \<not> in_range row col r'"
  then show "get_merged_cell_value ws row col = stored_value ws row col"
    unfolding get_merged_cell_value_def by (rule merged_lookup_none)
next
  assume "find (in_range row col) (merged_ranges ws) = Some r"
  then show "get_merged_cell_value ws row col = stored_value ws (min_row r) (min_col r)"
    unfolding get_merged_cell_value_def merged_lookup_first by simp
qed

text \<open>A sheet with the one merged range A1:B2, a value in A1 and a value in A3.\<close>

definition merged_sheet :: worksheet where
  "merged_sheet = Worksheet
     (\<lambda>row col. if row = 1 \<and> col = 1 then Some (ascii ''A'')
                 else if row = 3 \<and> col = 1 then Some (ascii ''C'') else None)
     [MergedRange 1 1 2 2] 3 2"

theorem merged_cell_resolution_witness:
  "in_range 2 2 (MergedRange 1 1 2 2)
   \<and> merged_ranges merged_sheet = [MergedRange 1 1 2 2]
   \<and> find (in_range 2 2) (merged_ranges merged_sheet) = Some (MergedRange 1 1 2 2)
   \<and> get_merged_cell_value merged_sheet 2 2 = Some (ascii ''A'')
   \<and> flatten merged_sheet ! (2 - 1) ! (2 - 1) = ascii ''A''
   \<and> get_merged_cell_value merged_sheet 3 1 = Some (ascii ''C'')"
proof -
  let ?r = "MergedRange 1 1 2 2"
  have rs: "merged_ranges merged_sheet = [?r]" by (simp add: merged_sheet_def)
  have i: "in_range 2 2 ?r" by (simp add: in_range_def)
  have a: "?r \<in> set (merged_ranges merged_sheet) \<and> in_range 2 2 ?r
      \<and> (\<forall>r'\<in>set (merged_ranges merged_sheet). in_range 2 2 r' \<longrightarrow>
            min_row r' = min_row ?r \<and> min_col r' = min_col ?r)"
    unfolding rs using i by simp
  have d: "1 \<le> (2::nat) \<and> 2 \<le> max_row merged_sheet \<and> 1 \<le> (2::nat) \<and> 2 \<le> max_column merged_sheet"
    by (simp add: merged_sheet_def)
  have b: "\<forall>r'\<in>set (merged_ranges merged_sheet). \<not> in_range 3 1 r'"
    unfolding rs by (simp add: in_range_def)
  have c: "find (in_range 2 2) (merged_ranges merged_sheet) = Some ?r"
    unfolding rs using i by simp
  note t = merged_cell_resolution [of ?r merged_sheet 2 2]
  from t a have g: "get_merged_cell_value merged_sheet 2 2 = stored_value merged_sheet (min_row ?r) (min_col ?r)"
    by blast
  from t a d have f: "flatten merged_sheet ! (2 - 1) ! (2 - 1)
      = cell_text (stored_value merged_sheet (min_row ?r) (min_col ?r))"
    by blast
  from t c have g2: "get_merged_cell_value merged_sheet 2 2 = stored_value merged_sheet (min_row ?r) (min_col ?r)"
    by blast
  from merged_cell_resolution [of ?r merged_sheet 3 1] b
  have h: "get_merged_cell_value merged_sheet 3 1 = stored_value merged_sheet 3 1" by blast
  from g g2 have g': "get_merged_cell_value merged_sheet 2 2 = Some (ascii ''A'')"
    by (simp add: merged_sheet_def)
  from f have f': "flatten merged_sheet ! (2 - 1) ! (2 - 1) = ascii ''A''"
    by (simp add: merged_sheet_def cell_text_def)
  from h have h': "get_merged_cell_value merged_sheet 3 1 = Some (ascii ''C'')"
    by (simp add: merged_sheet_def)
  from i rs c g' f' h' show ?thesis by blast
qed

text \<open>The claim as stated fails where merged ranges overlap. The sheet has the merged ranges
  A1:B2 and B2:C3, in this order, and a value only in A1. The address B2 lies inside the range
  B2:C3, whose top-left address is B2 itself, where nothing is stored; the resolver returns
  the value of A1. In the flattened grid the cells B2 and C3 of the range B2:C3 differ.\<close>

definition overlap_sheet :: worksheet where
  "overlap_sheet = Worksheet
     (\<lambda>row col. if row = 1 \<and> col = 1 then Some (ascii ''A'') else None)
     [MergedRange 1 1 2 2, MergedRange 2 2 3 3] 3 3"

theorem merged_cell_resolution_counterexample:
  "MergedRange 2 2 3 3 \<in> set (merged_ranges overlap_sheet)
   \<and> in_range 2 2 (MergedRange 2 2 3 3)
   \<and> stored_value overlap_sheet (min_row (MergedRange 2 2 3 3)) (min_col (MergedRange 2 2 3 3)) = None
   \<and> get_merged_cell_value overlap_sheet 2 2 = Some (ascii ''A'')
   \<and> flatten overlap_sheet
       = [[ascii ''A'', ascii ''A'', []], [ascii ''A'', ascii ''A'', []], [[], [], []]]"
  by (simp add: overlap_sheet_def get_merged_cell_value_def in_range_def flatten_def
      flatten_row_def cell_text_def upt_conv_Cons)

section \<open>The driver: \<open>convert_xlsx_to_csv\<close>, \<open>merge_columns_to_question_info\<close> and
  \<open>process_all_files\<close>\<close>

text \<open>
  The output directory is a map from file names to file contents, and the content of a CSV
  file is its grid of rows. An exception is represented by its \<open>str()\<close> text. What
  \<open>load_workbook\<close> yields for an input file is either an exception or the active sheet; what
  \<open>pd.read_csv\<close> yields for a file content is either an exception or a table, and since pandas
  is not part of the program, \<open>read_csv\<close> is a parameter of the model: every theorem below
  holds for every such function. Writing a file is taken to succeed, so the exceptions of the
  model are those of loading a workbook, of reading a CSV file back, and of renaming a file
  that does not exist.
\<close>

type_synonym exn = ustr

type_synonym files = "ustr \<rightharpoonup> grid"

definition file_not_found :: exn where
  "file_not_found = ascii ''[Errno 2] No such file or directory''"

text \<open>Lines 132 to 178. Nothing is written when loading the workbook raises.\<close>

definition convert_xlsx_to_csv :: "exn + worksheet \<Rightarrow> ustr \<Rightarrow> files \<Rightarrow> bool \<times> files" where
  "convert_xlsx_to_csv loaded csv_path files =
     (case loaded of
        Inl e \<Rightarrow> (False, files)
      | Inr worksheet \<Rightarrow>
          (let csv_data = fill_answer_instruction_column (flatten worksheet)
           in (True, files(csv_path \<mapsto> csv_data))))"

text \<open>\<open>df.to_csv(output_path, index=False)\<close>: the header line, then the records; a missing
  value is written as the empty field.\<close>

fun cell_csv :: "cell \<Rightarrow> ustr" where
  "cell_csv NaN = []"
| "cell_csv (Val s) = s"

definition to_csv :: "dataframe \<Rightarrow> grid" where
  "to_csv df = columns df # map (map cell_csv) (rows df)"

text \<open>The body of the \<open>try\<close> of lines 192 to 255: \<open>Inl\<close> is an exception raised inside it,
  \<open>Inr\<close> the value returned and the directory as the body leaves it.\<close>

definition merge_body ::
  "(grid \<Rightarrow> exn + dataframe) \<Rightarrow> ustr \<Rightarrow> ustr \<Rightarrow> files \<Rightarrow> exn + bool \<times> files" where
  "merge_body read_csv csv_path output_path files =
     (case files csv_path of
        None \<Rightarrow> Inl file_not_found
      | Some content \<Rightarrow>
          (case read_csv content of
             Inl e \<Rightarrow> Inl e
           | Inr df \<Rightarrow>
               (case merge_frame df of
                  None \<Rightarrow> Inr (False, files)
                | Some df' \<Rightarrow> Inr (True, files(output_path \<mapsto> to_csv df')))))"

text \<open>Lines 191 to 259: the handler of lines 257 to 259 turns every exception of the body into
  the return value \<open>False\<close>.\<close>

definition merge_columns_to_question_info ::
  "(grid \<Rightarrow> exn + dataframe) \<Rightarrow> ustr \<Rightarrow> ustr \<Rightarrow> files \<Rightarrow> bool \<times> files" where
  "merge_columns_to_question_info read_csv csv_path output_path files =
     (case merge_body read_csv csv_path output_path files of
        Inl e \<Rightarrow> (False, files)
      | Inr result \<Rightarrow> result)"

text \<open>The file names of lines 299, 306 and 313, and the name of the input file, from the
  stem of the input file.\<close>

definition xlsx_name :: "ustr \<Rightarrow> ustr" where
  "xlsx_name stem = stem @ ascii ''.xlsx''"

definition temp_name :: "ustr \<Rightarrow> ustr" where
  "temp_name stem = ascii ''temp_'' @ stem @ ascii ''.csv''"

definition final_name :: "ustr \<Rightarrow> ustr" where
  "final_name stem = stem @ ascii ''_processed.csv''"

definition plain_name :: "ustr \<Rightarrow> ustr" where
  "plain_name stem = stem @ ascii ''.csv''"

text \<open>\<open>Path.rename\<close>, which replaces an existing target, and the cleanup of lines 318 and
  319.\<close>

definition rename :: "files \<Rightarrow> ustr \<Rightarrow> ustr \<Rightarrow> exn + files" where
  "rename files src dst =
     (case files src of
        None \<Rightarrow> Inl file_not_found
      | Some content \<Rightarrow> Inr ((files(src := None))(dst \<mapsto> content)))"

definition unlink_if_exists :: "files \<Rightarrow> ustr \<Rightarrow> files" where
  "unlink_if_exists files path = (if files path \<noteq> None then files(path := None) else files)"

text \<open>The two messages appended to \<open>errors\<close> (lines 302 and 322).\<close>

definition convert_error :: "ustr \<Rightarrow> ustr" where
  "convert_error name = [69, 120, 99, 101, 108, 36716, 67, 83, 86, 22833, 36133, 58, 32] @ name"

definition process_error :: "ustr \<Rightarrow> exn \<Rightarrow> ustr" where
  "process_error name e =
     [22788, 29702, 25991, 20214, 32] @ name @ [32, 26102, 20986, 38169, 58, 32] @ e"

text \<open>One iteration of the loop of lines 294 to 324. An input file is the stem of its name
  and what loading it yields; the state is \<open>success_count\<close>, \<open>errors\<close> and the output
  directory.\<close>

definition process_file ::
  "(grid \<Rightarrow> exn + dataframe) \<Rightarrow> ustr \<times> (exn + worksheet) \<Rightarrow> nat \<times> ustr list \<times> files
     \<Rightarrow> nat \<times> ustr list \<times> files" where
  "process_file read_csv = (\<lambda>(stem, loaded) (success_count, errors, files).
     let temp_csv_path = temp_name stem;
         (converted, files1) = convert_xlsx_to_csv loaded temp_csv_path files
     in if \<not> converted
        then (success_count, errors @ [convert_error (xlsx_name stem)], files1)
        else
          let final_csv_path = final_name stem;
              (merged, files2) =
                 merge_columns_to_question_info read_csv temp_csv_path final_csv_path files1
          in if merged
             then (success_count + 1, errors, unlink_if_exists files2 temp_csv_path)
             else
               (case rename files2 temp_csv_path (plain_name stem) of
                  Inl e \<Rightarrow>
                    (success_count, errors @ [process_error (xlsx_name stem) e], files2)
                | Inr files3 \<Rightarrow>
                    (success_count + 1, errors, unlink_if_exists files3 temp_csv_path)))"

text \<open>Lines 276 to 338. The input directory is \<open>None\<close> when it does not exist, otherwise the
  list of its \<open>.xlsx\<close> files. The result is the summary, as the triple of \<open>success\<close>,
  \<open>total\<close> and \<open>errors\<close>, and the output directory.\<close>

definition process_all_files ::
  "(grid \<Rightarrow> exn + dataframe) \<Rightarrow> (ustr \<times> (exn + worksheet)) list option \<Rightarrow> files
     \<Rightarrow> (nat \<times> nat \<times> ustr list) \<times> files" where
  "process_all_files read_csv input_dir files =
     (case input_dir of
        None \<Rightarrow> ((0, 0, [[36755, 20837, 30446, 24405, 19981, 23384, 22312]]), files)
      | Some xlsx_files \<Rightarrow>
          if xlsx_files = []
          then ((0, 0, [[26410, 25214, 21040, 69, 120, 99, 101, 108, 25991, 20214]]), files)
          else
            let (success_count, errors, files') =
                  fold (process_file read_csv) xlsx_files (0, [], files)
            in ((success_count, length xlsx_files, errors), files'))"

subsection \<open>Properties of the driver\<close>

lemma names_distinct:
  "temp_name stem \<noteq> plain_name stem"
  "final_name stem \<noteq> plain_name stem"
  "temp_name stem \<noteq> final_name stem"
proof -
  have "length (temp_name stem) \<noteq> length (plain_name stem)"
    "length (final_name stem) \<noteq> length (plain_name stem)"
    "length (temp_name stem) \<noteq> length (final_name stem)"
    by (simp_all add: temp_name_def plain_name_def final_name_def ascii_def)
  then show "temp_name stem \<noteq> plain_name stem" "final_name stem \<noteq> plain_name stem"
    "temp_name stem \<noteq> final_name stem"
    by auto
qed

lemma merge_body_missing:
  assumes "files csv_path = Some content" and "read_csv content = Inr df"
    and "c \<in> set required_columns" and "c \<notin> set (columns df)"
  shows "merge_body read_csv csv_path output_path files = Inr (False, files)"
proof -
  from assms(3,4) have "\<not> set required_columns \<subseteq> set (columns df)" by auto
  then have "merge_frame df = None" by (rule merge_frame_missing)
  with assms(1,2) show ?thesis by (simp add: merge_body_def)
qed

text \<open>When the merge reports failure and leaves the directory as it was, the iteration
  renames the temporary file to the plain name and counts the file as a success.\<close>

lemma process_file_fallback:
  assumes "merge_columns_to_question_info read_csv (temp_name stem) (final_name stem)
             (files(temp_name stem \<mapsto> fill_answer_instruction_column (flatten ws)))
           = (False, files(temp_name stem \<mapsto> fill_answer_instruction_column (flatten ws)))"
  shows "process_file read_csv (stem, Inr ws) (success_count, errors, files) =
     (success_count + 1, errors,
      (files(temp_name stem := None))(plain_name stem \<mapsto>
         fill_answer_instruction_column (flatten ws)))"
  using names_distinct(1) [of stem]
  by (simp add: process_file_def convert_xlsx_to_csv_def Let_def assms rename_def
      unlink_if_exists_def)

lemma merge_exception_False:
  assumes "merge_body read_csv csv_path output_path files = Inl e"
  shows "merge_columns_to_question_info read_csv csv_path output_path files = (False, files)"
  using assms by (simp add: merge_columns_to_question_info_def)

text \<open>C4: a record set in which one of the four required headers is absent. The merge
  operation reports failure and leaves the directory as it was, so it writes no
  \<open>_processed\<close> file; the driver then counts the file as a success without recording an
  error, and leaves the grid that the conversion wrote (the flattened grid after the fill
  stage, without the question-info field) under the plain name \<open><stem>.csv\<close>, no temporary
  file, and under the \<open>_processed\<close> name whatever was there before.\<close>

theorem missing_columns_fallback:
  assumes "c \<in> set required_columns" and "c \<notin> set (columns df)"
  shows "(files csv_path = Some content \<and> read_csv content = Inr df
        \<longrightarrow> merge_columns_to_question_info read_csv csv_path output_path files = (False, files))
     \<and> (read_csv (fill_answer_instruction_column (flatten ws)) = Inr df
        \<longrightarrow> (\<exists>files'.
              process_file read_csv (stem, Inr ws) (success_count, errors, files)
                = (success_count + 1, errors, files')
              \<and> files' (plain_name stem) = Some (fill_answer_instruction_column (flatten ws))
              \<and> files' (temp_name stem) = None
              \<and> files' (final_name stem) = files (final_name stem)))"
proof (intro conjI impI)
  assume "files csv_path = Some content \<and> read_csv content = Inr df"
  then have "merge_body read_csv csv_path output_path files = Inr (False, files)"
    using assms by (intro merge_body_missing [where c = c and df = df and content = content]) simp_all
  then show "merge_columns_to_question_info read_csv csv_path output_path files = (False, files)"
    by (simp add: merge_columns_to_question_info_def)
next
  let ?g = "fill_answer_instruction_column (flatten ws)"
  let ?files1 = "files(temp_name stem \<mapsto> ?g)"
  assume r: "read_csv ?g = Inr df"
  have "merge_body read_csv (temp_name stem) (final_name stem) ?files1 = Inr (False, ?files1)"
    using r assms by (intro merge_body_missing [where c = c and df = df and content = ?g]) simp_all
  then have "merge_columns_to_question_info read_csv (temp_name stem) (final_name stem) ?files1
      = (False, ?files1)"
    by (simp add: merge_columns_to_question_info_def)
  then have "process_file read_csv (stem, Inr ws) (success_count, errors, files) =
     (success_count + 1, errors, (files(temp_name stem := None))(plain_name stem \<mapsto> ?g))"
    by (rule process_file_fallback)
  then show "\<exists>files'.
      process_file read_csv (stem, Inr ws) (success_count, errors, files)
        = (success_count + 1, errors, files')
      \<and> files' (plain_name stem) = Some ?g
      \<and> files' (temp_name stem) = None
      \<and> files' (final_name stem) = files (final_name stem)"
    using names_distinct [of stem] by simp
qed

text \<open>C3, as the code has it: when the body of the merge raises an exception (here: reading
  the temporary file back fails), the handler of lines 257 to 259 catches it and the merge
  reports failure, as it does for missing required headers. The driver cannot tell the two
  apart: it renames the temporary file to the plain name \<open><stem>.csv\<close>, counts the file as
  a success and records no error; the \<open>_processed\<close> name holds whatever it held before.\<close>

theorem merge_exception_fallback:
  assumes "merge_body read_csv (temp_name stem) (final_name stem)
             (files(temp_name stem \<mapsto> fill_answer_instruction_column (flatten ws))) = Inl e"
  shows "merge_columns_to_question_info read_csv (temp_name stem) (final_name stem)
             (files(temp_name stem \<mapsto> fill_answer_instruction_column (flatten ws)))
           = (False, files(temp_name stem \<mapsto> fill_answer_instruction_column (flatten ws)))
     \<and> (\<exists>files'.
           process_file read_csv (stem, Inr ws) (success_count, errors, files)
             = (success_count + 1, errors, files')
           \<and> files' (plain_name stem) = Some (fill_answer_instruction_column (flatten ws))
           \<and> files' (temp_name stem) = None
           \<and> files' (final_name stem) = files (final_name stem))"
proof -
  let ?g = "fill_answer_instruction_column (flatten ws)"
  let ?files1 = "files(temp_name stem \<mapsto> ?g)"
  have m: "merge_columns_to_question_info read_csv (temp_name stem) (final_name stem) ?files1
      = (False, ?files1)"
    using assms by (rule merge_exception_False)
  then have "process_file read_csv (stem, Inr ws) (success_count, errors, files) =
     (success_count + 1, errors, (files(temp_name stem := None))(plain_name stem \<mapsto> ?g))"
    by (rule process_file_fallback)
  then have "\<exists>files'.
      process_file read_csv (stem, Inr ws) (success_count, errors, files)
        = (success_count + 1, errors, files')
      \<and> files' (plain_name stem) = Some ?g
      \<and> files' (temp_name stem) = None
      \<and> files' (final_name stem) = files (final_name stem)"
    using names_distinct [of stem] by simp
  with m show ?thesis by simp
qed

text \<open>A sheet of two rows and one column, without merged ranges: the header \<open>h\<close> and the
  value \<open>v\<close>.\<close>

definition small_sheet :: worksheet where
  "small_sheet = Worksheet
     (\<lambda>row col. if row = 1 \<and> col = 1 then Some (ascii ''h'')
                 else if row = 2 \<and> col = 1 then Some (ascii ''v'') else None)
     [] 2 1"

lemma small_sheet_grid:
  "fill_answer_instruction_column (flatten small_sheet) = [[ascii ''h''], [ascii ''v'']]"
proof -
  have "flatten small_sheet = [[ascii ''h''], [ascii ''v'']]"
    by (simp add: small_sheet_def flatten_def flatten_row_def get_merged_cell_value_def
        cell_text_def upt_conv_Cons)
  then show ?thesis
    by (simp add: fill_answer_instruction_column_def instruction_marker_def ascii_def)
qed

theorem missing_columns_fallback_witness:
  "col_material \<in> set required_columns
   \<and> col_material \<notin> set (columns (DataFrame [ascii ''h''] [[Val (ascii ''v'')]]))
   \<and> merge_columns_to_question_info (\<lambda>content. Inr (DataFrame [ascii ''h''] [[Val (ascii ''v'')]]))
        (temp_name (ascii ''q'')) (final_name (ascii ''q''))
        [temp_name (ascii ''q'') \<mapsto> [[ascii ''h''], [ascii ''v'']]]
      = (False, [temp_name (ascii ''q'') \<mapsto> [[ascii ''h''], [ascii ''v'']]])
   \<and> (\<exists>files'.
        process_file (\<lambda>content. Inr (DataFrame [ascii ''h''] [[Val (ascii ''v'')]]))
          (ascii ''q'', Inr small_sheet) (0, [], Map.empty) = (1, [], files')
        \<and> files' (plain_name (ascii ''q'')) = Some [[ascii ''h''], [ascii ''v'']]
        \<and> files' (temp_name (ascii ''q'')) = None
        \<and> files' (final_name (ascii ''q'')) = None)"
proof -
  let ?df = "DataFrame [ascii ''h''] [[Val (ascii ''v'')]]"
  let ?rc = "\<lambda>content :: grid. (Inr ?df :: exn + dataframe)"
  let ?g = "[[ascii ''h''], [ascii ''v'']]"
  let ?q = "ascii ''q''"
  have a1: "col_material \<in> set required_columns" by (simp add: required_columns_def)
  have a2: "col_material \<notin> set (columns ?df)" by (simp add: col_material_def ascii_def)
  note t = missing_columns_fallback [OF a1 a2, where read_csv = ?rc and stem = ?q
      and ws = small_sheet and files = Map.empty and success_count = 0 and errors = "[]"]
  have h2: "?rc (fill_answer_instruction_column (flatten small_sheet)) = Inr ?df" by simp
  from t h2 have r2: "\<exists>files'.
        process_file ?rc (?q, Inr small_sheet) (0, [], Map.empty) = (0 + 1, [], files')
        \<and> files' (plain_name ?q) = Some (fill_answer_instruction_column (flatten small_sheet))
        \<and> files' (temp_name ?q) = None
        \<and> files' (final_name ?q) = Map.empty (final_name ?q)"
    by blast
  note u = missing_columns_fallback [OF a1 a2, where read_csv = ?rc
      and files = "[temp_name ?q \<mapsto> ?g]" and csv_path = "temp_name ?q" and content = ?g
      and output_path = "final_name ?q"]
  have h1: "[temp_name ?q \<mapsto> ?g] (temp_name ?q) = Some ?g \<and> ?rc ?g = Inr ?df" by simp
  from u h1 have r1: "merge_columns_to_question_info ?rc (temp_name ?q) (final_name ?q)
      [temp_name ?q \<mapsto> ?g] = (False, [temp_name ?q \<mapsto> ?g])"
    by blast
  from r2 have r2': "\<exists>files'.
        process_file ?rc (?q, Inr small_sheet) (0, [], Map.empty) = (1, [], files')
        \<and> files' (plain_name ?q) = Some ?g
        \<and> files' (temp_name ?q) = None
        \<and> files' (final_name ?q) = None"
    unfolding small_sheet_grid by simp
  from a1 a2 r1 r2' show ?thesis by blast
qed

theorem merge_exception_fallback_witness:
  "merge_body (\<lambda>content. Inl (ascii ''boom'')) (temp_name (ascii ''q'')) (final_name (ascii ''q''))
        [temp_name (ascii ''q'') \<mapsto> fill_answer_instruction_column (flatten small_sheet)]
      = Inl (ascii ''boom'')
   \<and> (\<exists>files'.
        process_file (\<lambda>content. Inl (ascii ''boom''))
          (ascii ''q'', Inr small_sheet) (0, [], Map.empty) = (1, [], files')
        \<and> files' (plain_name (ascii ''q'')) = Some [[ascii ''h''], [ascii ''v'']]
        \<and> files' (temp_name (ascii ''q'')) = None
        \<and> files' (final_name (ascii ''q'')) = None)"
proof -
  let ?rc = "\<lambda>content :: grid. (Inl (ascii ''boom'') :: exn + dataframe)"
  let ?q = "ascii ''q''"
  have m: "merge_body ?rc (temp_name ?q) (final_name ?q)
      (Map.empty(temp_name ?q \<mapsto> fill_answer_instruction_column (flatten small_sheet)))
      = Inl (ascii ''boom'')"
    by (simp add: merge_body_def)
  from merge_exception_fallback [OF m, where success_count = 0 and errors = "[]"]
  have "\<exists>files'.
        process_file ?rc (?q, Inr small_sheet) (0, [], Map.empty) = (0 + 1, [], files')
        \<and> files' (plain_name ?q) = Some (fill_answer_instruction_column (flatten small_sheet))
        \<and> files' (temp_name ?q) = None
        \<and> files' (final_name ?q) = Map.empty (final_name ?q)"
    by blast
  then have "\<exists>files'.
        process_file ?rc (?q, Inr small_sheet) (0, [], Map.empty) = (1, [], files')
        \<and> files' (plain_name ?q) = Some [[ascii ''h''], [ascii ''v'']]
        \<and> files' (temp_name ?q) = None
        \<and> files' (final_name ?q) = None"
    unfolding small_sheet_grid by simp
  with m show ?thesis by blast
qed

text \<open>The claim as stated fails: a run over the one input file \<open>q.xlsx\<close>, whose sheet
  converts, with a \<open>read_csv\<close> that raises. The body of the merge raises, yet the summary
  counts one success out of one file and holds no error, and the temporary file has been
  renamed to \<open>q.csv\<close>.\<close>

theorem merge_exception_fallback_counterexample:
  "merge_body (\<lambda>content. Inl (ascii ''boom'')) (temp_name (ascii ''q'')) (final_name (ascii ''q''))
        [temp_name (ascii ''q'') \<mapsto> [[ascii ''h''], [ascii ''v'']]]
      = Inl (ascii ''boom'')
   \<and> fst (process_all_files (\<lambda>content. Inl (ascii ''boom''))
        (Some [(ascii ''q'', Inr small_sheet)]) Map.empty) = (1, 1, [])
   \<and> snd (process_all_files (\<lambda>content. Inl (ascii ''boom''))
        (Some [(ascii ''q'', Inr small_sheet)]) Map.empty) (plain_name (ascii ''q''))
      = Some [[ascii ''h''], [ascii ''v'']]
   \<and> snd (process_all_files (\<lambda>content. Inl (ascii ''boom''))
        (Some [(ascii ''q'', Inr small_sheet)]) Map.empty) (temp_name (ascii ''q'')) = None"
proof -
  let ?rc = "\<lambda>content :: grid. (Inl (ascii ''boom'') :: exn + dataframe)"
  let ?q = "ascii ''q''"
  let ?g = "[[ascii ''h''], [ascii ''v'']]"
  have m: "merge_body ?rc (temp_name ?q) (final_name ?q) (Map.empty(temp_name ?q \<mapsto> ?g))
      = Inl (ascii ''boom'')"
    by (simp add: merge_body_def)
  then have "merge_columns_to_question_info ?rc (temp_name ?q) (final_name ?q)
      (Map.empty(temp_name ?q \<mapsto> ?g)) = (False, Map.empty(temp_name ?q \<mapsto> ?g))"
    by (rule merge_exception_False)
  then have "process_file ?rc (?q, Inr small_sheet) (0, [], Map.empty) =
      (0 + 1, [], (Map.empty(temp_name ?q := None))(plain_name ?q \<mapsto>
         fill_answer_instruction_column (flatten small_sheet)))"
    unfolding small_sheet_grid [symmetric] by (rule process_file_fallback)
  then have p: "process_all_files ?rc (Some [(?q, Inr small_sheet)]) Map.empty =
      ((1, 1, []), (Map.empty(temp_name ?q := None))(plain_name ?q \<mapsto> ?g))"
    by (simp add: process_all_files_def small_sheet_grid)
  show ?thesis unfolding p using m names_distinct [of ?q] by simp
qed

end
